theory Spec2Isabelle
  imports Main
begin

section \<open>Values of a JSON request body\<close>

text \<open>
  The handlers read fields of \<^verbatim>\<open>req.body\<close> and test them with JavaScript's
  truthiness (\<^verbatim>\<open>!sdp\<close>, \<^verbatim>\<open>isTyping ? .. : ..\<close>) or with strict equality
  (\<^verbatim>\<open>isTyping === true\<close>). A field that is absent reads as \<^verbatim>\<open>undefined\<close>.
  Numbers are the integer-valued ones; objects and arrays are opaque (always truthy).
\<close>

datatype jsval =
    JUndefined
  | JNull
  | JBool bool
  | JNum int
  | JStr string
  | JObj string

fun truthy :: "jsval \<Rightarrow> bool" where
  "truthy JUndefined = False"
| "truthy JNull = False"
| "truthy (JBool b) = b"
| "truthy (JNum n) = (n \<noteq> 0)"
| "truthy (JStr s) = (s \<noteq> [])"
| "truthy (JObj _) = True"

section \<open>The User model (models/User.js)\<close>

record push_subscription =
  endpoint :: "string option"
  keys :: jsval

text \<open>
  One document of the \<^verbatim>\<open>User\<close> collection. \<open>uid\<close> is \<^verbatim>\<open>_id\<close> in its string form
  (\<^verbatim>\<open>_id.toString()\<close>, which is also what the token carries as \<^verbatim>\<open>req.user.id\<close>);
  dates are milliseconds since the epoch, as \<^verbatim>\<open>Date.now()\<close> gives them.
\<close>

record user =
  uid :: string
  publicId :: string
  encryptedProfile :: jsval
  partnerId :: "string option"
  inviteCode :: "string option"
  pushSubscription :: "push_subscription option"
  createdAt :: int
  lastActiveAt :: int
  isOnline :: bool
  isTyping :: bool
  typingAt :: "int option"

type_synonym users = "user list"

definition findById :: "users \<Rightarrow> string \<Rightarrow> user option" where
  "findById db i = find (\<lambda>u. uid u = i) db"

definition findOne_inviteCode :: "users \<Rightarrow> string \<Rightarrow> user option" where
  "findOne_inviteCode db c = find (\<lambda>u. inviteCode u = Some c) db"

definition findOne_publicId :: "users \<Rightarrow> string \<Rightarrow> user option" where
  "findOne_publicId db p = find (\<lambda>u. publicId u = p) db"

text \<open>
  \<^verbatim>\<open>doc.save()\<close> after assigning some paths, and \<^verbatim>\<open>findByIdAndUpdate\<close>, both write the
  given paths of the document with that \<^verbatim>\<open>_id\<close> and leave every other document alone;
  on an id that is not in the collection \<^verbatim>\<open>findByIdAndUpdate\<close> changes nothing.
\<close>

definition findByIdAndUpdate :: "users \<Rightarrow> string \<Rightarrow> (user \<Rightarrow> user) \<Rightarrow> users" where
  "findByIdAndUpdate db i f = map (\<lambda>u. if uid u = i then f u else u) db"

section \<open>The signaling store (WebRTC signaling routes)\<close>

text \<open>
  \<^verbatim>\<open>signalingStore\<close> is one \<^verbatim>\<open>Map\<close> with string keys. Under the key of a recipient
  it holds the pending message, an object \<^verbatim>\<open>{type, sdp, from, timestamp}\<close> (no
  \<^verbatim>\<open>sdp\<close> when the type is \<^verbatim>\<open>'end'\<close>); under the key \<^verbatim>\<open>ice-\<close> followed by the recipient
  it holds an array of \<^verbatim>\<open>{candidate, from, timestamp}\<close>.
\<close>

datatype entry =
    Offer jsval string int
  | Answer jsval string int
  | End string int

datatype fragment = Fragment jsval string int

datatype sval =
    Signal entry
  | Candidates "fragment list"

record state =
  users :: users
  signalingStore :: "string \<rightharpoonup> sval"

definition ice_key :: "string \<Rightarrow> string" where
  "ice_key i = ''ice-'' @ i"

datatype response =
    SuccessTrue
  | ErrorStatus nat string
  | PollResult "sval option" sval
  | OkTrue
  | NotConnected
  | PartnerStatus bool int bool
  | Linked string
  | LoggedOut
  | UserJson user
  | Created user

text \<open>
  Every handler takes the state, the authenticated id \<^verbatim>\<open>req.user.id\<close>, the body
  fields it reads and the clock (\<^verbatim>\<open>Date.now()\<close>, \<^verbatim>\<open>new Date()\<close>) as it reads it, and
  returns the response with the state it leaves. Each of these functions is the handler
  running from its first line to its response with no other handler in between; how
  handlers take turns at their awaits is modelled further down (\<open>start\<close>, \<open>resume\<close>).
\<close>

definition webrtc_offer :: "state \<Rightarrow> string \<Rightarrow> jsval \<Rightarrow> int \<Rightarrow> response \<times> state" where
  "webrtc_offer st me sdp now =
     (if \<not> truthy sdp then (ErrorStatus 400 ''SDP offer required'', st)
      else case findById (users st) me of
        None \<Rightarrow> (ErrorStatus 400 ''No partner connected'', st)
      | Some u \<Rightarrow>
          (case partnerId u of
             None \<Rightarrow> (ErrorStatus 400 ''No partner connected'', st)
           | Some partnerKey \<Rightarrow>
               (SuccessTrue,
                st\<lparr>signalingStore :=
                     (signalingStore st)(partnerKey \<mapsto> Signal (Offer sdp me now))\<rparr>)))"

definition webrtc_answer :: "state \<Rightarrow> string \<Rightarrow> jsval \<Rightarrow> int \<Rightarrow> response \<times> state" where
  "webrtc_answer st me sdp now =
     (if \<not> truthy sdp then (ErrorStatus 400 ''SDP answer required'', st)
      else case findById (users st) me of
        None \<Rightarrow> (ErrorStatus 400 ''No partner connected'', st)
      | Some u \<Rightarrow>
          (case partnerId u of
             None \<Rightarrow> (ErrorStatus 400 ''No partner connected'', st)
           | Some partnerKey \<Rightarrow>
               (SuccessTrue,
                st\<lparr>signalingStore :=
                     (signalingStore st)(partnerKey \<mapsto> Signal (Answer sdp me now))\<rparr>)))"

text \<open>
  \<^verbatim>\<open>signalingStore.get(partnerKey) || []\<close> is the stored value when there is one (an
  object or an array is truthy). \<^verbatim>\<open>existing.push\<close> on a stored message object is a
  TypeError, which the handler's \<^verbatim>\<open>catch\<close> turns into status 500.
\<close>

definition webrtc_ice_candidate :: "state \<Rightarrow> string \<Rightarrow> jsval \<Rightarrow> int \<Rightarrow> response \<times> state" where
  "webrtc_ice_candidate st me candidate now =
     (case findById (users st) me of
        None \<Rightarrow> (ErrorStatus 400 ''No partner connected'', st)
      | Some u \<Rightarrow>
          (case partnerId u of
             None \<Rightarrow> (ErrorStatus 400 ''No partner connected'', st)
           | Some p \<Rightarrow>
               (let partnerKey = ice_key p in
                case signalingStore st partnerKey of
                  None \<Rightarrow>
                    (SuccessTrue,
                     st\<lparr>signalingStore :=
                          (signalingStore st)
                            (partnerKey \<mapsto> Candidates ([] @ [Fragment candidate me now]))\<rparr>)
                | Some (Candidates existing) \<Rightarrow>
                    (SuccessTrue,
                     st\<lparr>signalingStore :=
                          (signalingStore st)
                            (partnerKey \<mapsto> Candidates (existing @ [Fragment candidate me now]))\<rparr>)
                | Some (Signal e) \<Rightarrow> (ErrorStatus 500 ''Server error'', st))))"

text \<open>
  \<^verbatim>\<open>iceCandidates.length > 0\<close>: the length of an array; on a message object
  \<^verbatim>\<open>length\<close> is undefined and the comparison is false.
\<close>

fun nonempty_array :: "sval \<Rightarrow> bool" where
  "nonempty_array (Candidates xs) = (0 < length xs)"
| "nonempty_array (Signal e) = False"

definition webrtc_poll :: "state \<Rightarrow> string \<Rightarrow> response \<times> state" where
  "webrtc_poll st me =
     (let myKey = me;
          iceKey = ice_key me;
          signal = signalingStore st myKey;
          iceCandidates = (case signalingStore st iceKey of
                             None \<Rightarrow> Candidates []
                           | Some v \<Rightarrow> v);
          s1 = (if signal \<noteq> None then (signalingStore st)(myKey := None)
                else signalingStore st);
          s2 = (if nonempty_array iceCandidates then s1(iceKey := None) else s1)
      in (PollResult signal iceCandidates, st\<lparr>signalingStore := s2\<rparr>))"

definition webrtc_end :: "state \<Rightarrow> string \<Rightarrow> int \<Rightarrow> response \<times> state" where
  "webrtc_end st me now =
     (case findById (users st) me of
        None \<Rightarrow> (SuccessTrue, st)
      | Some u \<Rightarrow>
          (case partnerId u of
             None \<Rightarrow> (SuccessTrue, st)
           | Some partnerKey \<Rightarrow>
               (SuccessTrue,
                st\<lparr>signalingStore :=
                     (signalingStore st)(partnerKey \<mapsto> Signal (End me now))\<rparr>)))"

text \<open>
  The partner an identity resolves to, as every send handler computes it:
  none when the account is missing or its \<^verbatim>\<open>partnerId\<close> is null.
\<close>

definition partner_of :: "state \<Rightarrow> string \<Rightarrow> string option" where
  "partner_of st i = (case findById (users st) i of None \<Rightarrow> None | Some u \<Rightarrow> partnerId u)"

section \<open>Keys of the store\<close>

text \<open>
  The string form of a Mongo ObjectId is 24 lowercase hexadecimal digits. A recipient key
  is such a string, and the key of a candidate queue is \<^verbatim>\<open>ice-\<close> followed by one, so the
  two families of keys never meet: in a store written by the handlers for callers and
  partners that are ObjectIds, a message object sits under an ObjectId and an array
  under an \<^verbatim>\<open>ice-\<close> key.
\<close>

definition hex_digit :: "char \<Rightarrow> bool" where
  "hex_digit c = (c \<in> set ''0123456789abcdef'')"

definition is_oid :: "string \<Rightarrow> bool" where
  "is_oid s = (length s = 24 \<and> list_all hex_digit s)"

definition typed_store :: "(string \<rightharpoonup> sval) \<Rightarrow> bool" where
  "typed_store m =
     (\<forall>k v. m k = Some v \<longrightarrow>
        (case v of Signal e \<Rightarrow> is_oid k
                 | Candidates q \<Rightarrow> (\<exists>r. is_oid r \<and> k = ice_key r)))"

text \<open>The candidates waiting for a recipient (none when the key is not set).\<close>

definition queue_of :: "state \<Rightarrow> string \<Rightarrow> fragment list" where
  "queue_of st r = (case signalingStore st (ice_key r) of
                      Some (Candidates q) \<Rightarrow> q
                    | _ \<Rightarrow> [])"

section \<open>Sequences of requests\<close>

text \<open>\<open>polls n me st\<close>: the state after \<open>n\<close> polls by \<open>me\<close> in a row.\<close>

fun polls :: "nat \<Rightarrow> string \<Rightarrow> state \<Rightarrow> state" where
  "polls 0 me st = st"
| "polls (Suc n) me st = polls n me (snd (webrtc_poll st me))"

text \<open>Nothing is pending for \<open>me\<close>: no message, and no or an empty candidate array.\<close>

definition drained :: "state \<Rightarrow> string \<Rightarrow> bool" where
  "drained st me \<longleftrightarrow>
     signalingStore st me = None
     \<and> (signalingStore st (ice_key me) = None
        \<or> signalingStore st (ice_key me) = Some (Candidates []))"

text \<open>
  A request to \<^verbatim>\<open>POST /ice-candidate\<close>: the caller, the \<^verbatim>\<open>candidate\<close> field and the clock.
  \<open>send_candidates\<close> serves a list of them in order, \<open>candidate_acks\<close> collects the
  responses, and \<open>fragment_of\<close> is the array element each one pushes.
\<close>

type_synonym candidate_request = "string \<times> jsval \<times> int"

fun send_candidates :: "state \<Rightarrow> candidate_request list \<Rightarrow> state" where
  "send_candidates st [] = st"
| "send_candidates st ((me, candidate, now) # rs) =
     send_candidates (snd (webrtc_ice_candidate st me candidate now)) rs"

fun candidate_acks :: "state \<Rightarrow> candidate_request list \<Rightarrow> response list" where
  "candidate_acks st [] = []"
| "candidate_acks st ((me, candidate, now) # rs) =
     fst (webrtc_ice_candidate st me candidate now)
       # candidate_acks (snd (webrtc_ice_candidate st me candidate now)) rs"

fun fragment_of :: "candidate_request \<Rightarrow> fragment" where
  "fragment_of (me, candidate, now) = Fragment candidate me now"

text \<open>
  The value under a key is not a message object.
\<close>

definition no_message_at :: "state \<Rightarrow> string \<Rightarrow> bool" where
  "no_message_at st k \<longleftrightarrow> (\<forall>e. signalingStore st k \<noteq> Some (Signal e))"

text \<open>
  The three requests that write the partner's slot, each with its clock reading;
  \<open>sends\<close> serves a list of them from one caller in order. \<open>has_payload\<close> says
  whether the request passes the payload check (an end has none to pass), and
  \<open>entry_of\<close> is the message object it then stores.
\<close>

datatype send = SendOffer jsval | SendAnswer jsval | SendEnd

type_synonym send_request = "send \<times> int"

fun send_one :: "state \<Rightarrow> string \<Rightarrow> send_request \<Rightarrow> response \<times> state" where
  "send_one st me (SendOffer sdp, now) = webrtc_offer st me sdp now"
| "send_one st me (SendAnswer sdp, now) = webrtc_answer st me sdp now"
| "send_one st me (SendEnd, now) = webrtc_end st me now"

fun sends :: "state \<Rightarrow> string \<Rightarrow> send_request list \<Rightarrow> state" where
  "sends st me [] = st"
| "sends st me (x # xs) = sends (snd (send_one st me x)) me xs"

fun has_payload :: "send_request \<Rightarrow> bool" where
  "has_payload (SendOffer sdp, now) = truthy sdp"
| "has_payload (SendAnswer sdp, now) = truthy sdp"
| "has_payload (SendEnd, now) = True"

fun entry_of :: "string \<Rightarrow> send_request \<Rightarrow> entry" where
  "entry_of me (SendOffer sdp, now) = Offer sdp me now"
| "entry_of me (SendAnswer sdp, now) = Answer sdp me now"
| "entry_of me (SendEnd, now) = End me now"

section \<open>Presence and pairing (auth routes)\<close>

text \<open>
  \<^verbatim>\<open>GET /partner-status\<close>. The two thresholds are computed from two readings of the
  clock, \<open>now1\<close> and \<open>now2\<close>. \<^verbatim>\<open>partner.typingAt > typingTimeout\<close> compares numbers:
  a date is its milliseconds and \<^verbatim>\<open>null\<close> is 0.
\<close>

definition auth_partner_status :: "state \<Rightarrow> string \<Rightarrow> int \<Rightarrow> int \<Rightarrow> response \<times> state" where
  "auth_partner_status st me now1 now2 =
     (case findById (users st) me of
        None \<Rightarrow> (NotConnected, st)
      | Some u \<Rightarrow>
          (case partnerId u of
             None \<Rightarrow> (NotConnected, st)
           | Some p \<Rightarrow>
               (case findById (users st) p of
                  None \<Rightarrow> (NotConnected, st)
                | Some partner \<Rightarrow>
                    (let fiveMinutesAgo = now1 - 5 * 60 * 1000;
                         isRecentlyActive = (lastActiveAt partner > fiveMinutesAgo);
                         typingTimeout = now2 - 5 * 1000;
                         isTyping' = (isTyping partner
                                      \<and> (case typingAt partner of None \<Rightarrow> 0 | Some t \<Rightarrow> t)
                                          > typingTimeout)
                     in (PartnerStatus (isOnline partner \<and> isRecentlyActive)
                           (lastActiveAt partner) isTyping', st)))))"

text \<open>
  \<^verbatim>\<open>POST /typing\<close>: the flag is stored by strict equality with \<^verbatim>\<open>true\<close>, the date by
  truthiness of the same field.
\<close>

definition auth_typing :: "state \<Rightarrow> string \<Rightarrow> jsval \<Rightarrow> int \<Rightarrow> response \<times> state" where
  "auth_typing st me isTyping' now =
     (OkTrue,
      st\<lparr>users := findByIdAndUpdate (users st) me
            (\<lambda>u. u\<lparr>isTyping := (isTyping' = JBool True),
                    typingAt := (if truthy isTyping' then Some now else None)\<rparr>)\<rparr>)"

text \<open>
  \<^verbatim>\<open>NotificationService.sendToUser\<close>. What the push service answers is outside the
  program: the notification is delivered, or rejected with status 410 or 404 (the
  subscription is then removed), or fails otherwise.
\<close>

datatype push_outcome = Delivered | Gone | Failed

definition sendToUser :: "users \<Rightarrow> string \<Rightarrow> push_outcome \<Rightarrow> bool \<times> users" where
  "sendToUser db userId outcome =
     (case findById db userId of
        None \<Rightarrow> (False, db)
      | Some u \<Rightarrow>
          (case pushSubscription u of
             None \<Rightarrow> (False, db)
           | Some sub \<Rightarrow>
               (case endpoint sub of
                  None \<Rightarrow> (False, db)
                | Some e \<Rightarrow>
                    if e = [] then (False, db)
                    else (case outcome of
                            Delivered \<Rightarrow> (True, db)
                          | Gone \<Rightarrow>
                              (False,
                               findByIdAndUpdate db userId (\<lambda>u. u\<lparr>pushSubscription := None\<rparr>))
                          | Failed \<Rightarrow> (False, db)))))"

text \<open>
  \<^verbatim>\<open>generateInviteCode\<close> draws eight characters; \<open>draws ! i\<close> is
  \<^verbatim>\<open>Math.floor(Math.random() * chars.length)\<close> of the \<open>i\<close>-th round.
\<close>

definition charAt :: "string \<Rightarrow> nat \<Rightarrow> string" where
  "charAt s i = (if i < length s then [s ! i] else [])"

definition generateInviteCode :: "nat list \<Rightarrow> string" where
  "generateInviteCode draws =
     concat (map (\<lambda>i. charAt ''ABCDEFGHJKLMNPQRSTUVWXYZ23456789'' (draws ! i)) [0..<8])"

text \<open>
  \<^verbatim>\<open>new User({publicId, encryptedProfile})\<close> with the defaults of the schema (both
  date defaults read the clock as the document is built).
  \<^verbatim>\<open>POST /register\<close> saves it and then saves the invite code; the unique indexes on
  \<^verbatim>\<open>_id\<close>, \<^verbatim>\<open>publicId\<close> and \<^verbatim>\<open>inviteCode\<close> make a save of a duplicate throw, which the
  handler answers with status 500.
\<close>

definition new_user :: "string \<Rightarrow> string \<Rightarrow> jsval \<Rightarrow> int \<Rightarrow> user" where
  "new_user new_id publicId' encryptedProfile' now =
     \<lparr>uid = new_id, publicId = publicId', encryptedProfile = encryptedProfile',
      partnerId = None, inviteCode = None, pushSubscription = None,
      createdAt = now, lastActiveAt = now, isOnline = False, isTyping = False,
      typingAt = None\<rparr>"

definition auth_register ::
  "state \<Rightarrow> string \<Rightarrow> string \<Rightarrow> nat list \<Rightarrow> jsval \<Rightarrow> int \<Rightarrow> response \<times> state" where
  "auth_register st new_id new_publicId draws encryptedProfile' now =
     (let u = new_user new_id new_publicId
                (if truthy encryptedProfile' then encryptedProfile' else JNull) now
      in if findById (users st) new_id \<noteq> None \<or> findOne_publicId (users st) new_publicId \<noteq> None
         then (ErrorStatus 500 ''Server error'', st)
         else
           (let db1 = users st @ [u]; code = generateInviteCode draws
            in if findOne_inviteCode db1 code \<noteq> None
               then (ErrorStatus 500 ''Server error'', st\<lparr>users := db1\<rparr>)
               else (Created (u\<lparr>inviteCode := Some code\<rparr>),
                     st\<lparr>users := findByIdAndUpdate db1 new_id
                                    (\<lambda>u. u\<lparr>inviteCode := Some code\<rparr>)\<rparr>)))"

text \<open>
\<^verbatim>\<open>POST /login\<close> with the public id sent as a string, and \<^verbatim>\<open>GET /me\<close>.
\<close>

definition auth_login :: "state \<Rightarrow> string \<Rightarrow> int \<Rightarrow> response \<times> state" where
  "auth_login st publicId' now =
     (if publicId' = [] then (ErrorStatus 400 ''Public ID required'', st)
      else case findOne_publicId (users st) publicId' of
        None \<Rightarrow> (ErrorStatus 404 ''User not found'', st)
      | Some u \<Rightarrow>
          (UserJson u,
           st\<lparr>users := findByIdAndUpdate (users st) (uid u)
                 (\<lambda>u. u\<lparr>lastActiveAt := now, isOnline := True\<rparr>)\<rparr>))"

definition auth_me :: "state \<Rightarrow> string \<Rightarrow> int \<Rightarrow> response \<times> state" where
  "auth_me st me now =
     (case findById (users st) me of
        None \<Rightarrow> (ErrorStatus 404 ''User not found'', st)
      | Some u \<Rightarrow>
          (UserJson u,
           st\<lparr>users := findByIdAndUpdate (users st) (uid u)
                 (\<lambda>u. u\<lparr>lastActiveAt := now, isOnline := True\<rparr>)\<rparr>))"

text \<open>
  \<^verbatim>\<open>POST /link-partner\<close>, served with no other request in between. What
  \<^verbatim>\<open>inviteCode.toUpperCase()\<close> returns is JavaScript's business: the handler takes the
  function as its parameter \<open>toUpperCase\<close>, and everything proved of it holds for every
  such function. \<^verbatim>\<open>inviteCode.toUpperCase()\<close> on a truthy value that is not a string, and
  \<^verbatim>\<open>user.partnerId\<close> when the caller's account is missing, are TypeErrors (status 500).
  The dynamic import of the notification service runs after both saves; when it throws
  (the module sets its VAPID keys as it loads), the answer is status 500 with both saves
  done.
\<close>

datatype import_result = ImportThrows | Imported push_outcome

definition auth_link_partner ::
  "(string \<Rightarrow> string) \<Rightarrow> state \<Rightarrow> string \<Rightarrow> jsval \<Rightarrow> import_result \<Rightarrow> response \<times> state" where
  "auth_link_partner toUpperCase st me inviteCode' imp =
     (if \<not> truthy inviteCode' then (ErrorStatus 400 ''Invite code required'', st)
      else case inviteCode' of
        JStr s \<Rightarrow>
          (case findOne_inviteCode (users st) (toUpperCase s) of
             None \<Rightarrow> (ErrorStatus 404 ''Invalid invite code'', st)
           | Some partner \<Rightarrow>
               if uid partner = me then (ErrorStatus 400 ''Cannot link with yourself'', st)
               else if partnerId partner \<noteq> None
               then (ErrorStatus 400 ''Partner already linked'', st)
               else (case findById (users st) me of
                       None \<Rightarrow> (ErrorStatus 500 ''Server error'', st)
                     | Some user \<Rightarrow>
                         if partnerId user \<noteq> None
                         then (ErrorStatus 400 ''You are already linked'', st)
                         else
                           (let db1 = findByIdAndUpdate (users st) (uid user)
                                        (\<lambda>u. u\<lparr>partnerId := Some (uid partner)\<rparr>);
                                db2 = findByIdAndUpdate db1 (uid partner)
                                        (\<lambda>u. u\<lparr>partnerId := Some (uid user)\<rparr>)
                            in case imp of
                                 ImportThrows \<Rightarrow>
                                   (ErrorStatus 500 ''Server error'', st\<lparr>users := db2\<rparr>)
                               | Imported outcome \<Rightarrow>
                                   (Linked (uid partner),
                                    st\<lparr>users := snd (sendToUser db2 (uid partner) outcome)\<rparr>))))
      | _ \<Rightarrow> (ErrorStatus 500 ''Server error'', st))"

definition auth_logout :: "state \<Rightarrow> string \<Rightarrow> response \<times> state" where
  "auth_logout st me =
     (LoggedOut,
      st\<lparr>users := findByIdAndUpdate (users st) me (\<lambda>u. u\<lparr>isOnline := False\<rparr>)\<rparr>)"

definition auth_heartbeat :: "state \<Rightarrow> string \<Rightarrow> int \<Rightarrow> response \<times> state" where
  "auth_heartbeat st me now =
     (OkTrue,
      st\<lparr>users := findByIdAndUpdate (users st) me
            (\<lambda>u. u\<lparr>lastActiveAt := now, isOnline := True\<rparr>)\<rparr>)"

text \<open>
The notification routes, which write \<^verbatim>\<open>pushSubscription\<close> only.
\<close>

definition notifications_subscribe ::
  "state \<Rightarrow> string \<Rightarrow> push_subscription option \<Rightarrow> response \<times> state" where
  "notifications_subscribe st me subscription =
     (case subscription of
        None \<Rightarrow> (ErrorStatus 400 ''Invalid subscription'', st)
      | Some sub \<Rightarrow>
          (case endpoint sub of
             None \<Rightarrow> (ErrorStatus 400 ''Invalid subscription'', st)
           | Some e \<Rightarrow>
               if e = [] then (ErrorStatus 400 ''Invalid subscription'', st)
               else (SuccessTrue,
                     st\<lparr>users := findByIdAndUpdate (users st) me
                           (\<lambda>u. u\<lparr>pushSubscription := Some sub\<rparr>)\<rparr>)))"

text \<open>
  \<^verbatim>\<open>POST /notifications/test\<close> destructures a named export \<^verbatim>\<open>NotificationService\<close> that
  the module does not have (it has a default export only), so \<^verbatim>\<open>NotificationService.default\<close>
  is a TypeError on \<^verbatim>\<open>undefined\<close>: the route always answers status 500 and writes nothing.
  \<^verbatim>\<open>POST /notifications/send-signal\<close> imports the default export and sends to the partner.
\<close>

definition notifications_test :: "state \<Rightarrow> string \<Rightarrow> response \<times> state" where
  "notifications_test st me = (ErrorStatus 500 ''Failed'', st)"

definition notifications_send_signal ::
  "state \<Rightarrow> string \<Rightarrow> import_result \<Rightarrow> response \<times> state" where
  "notifications_send_signal st me imp =
     (case findById (users st) me of
        None \<Rightarrow> (ErrorStatus 400 ''No partner connected'', st)
      | Some u \<Rightarrow>
          (case partnerId u of
             None \<Rightarrow> (ErrorStatus 400 ''No partner connected'', st)
           | Some p \<Rightarrow>
               (case imp of
                  ImportThrows \<Rightarrow> (ErrorStatus 500 ''Failed to send notification'', st)
                | Imported outcome \<Rightarrow>
                    (SuccessTrue, st\<lparr>users := snd (sendToUser (users st) p outcome)\<rparr>))))"

section \<open>Requests served one at a time\<close>

text \<open>
  One constructor for each route, and \<open>handle\<close> serves a request from its first line
  to its response with nothing running in between. The server starts with an empty
  collection and an empty store; the only thing asked of a request is that the \<^verbatim>\<open>_id\<close>
  Mongo generates for a new account is an ObjectId. \<open>serially_reachable\<close> are the states
  the server is in between requests when it serves them one after the other.
\<close>

datatype request =
    Register string string "nat list" jsval int
  | Login string int
  | Me string int
  | LinkPartner string jsval import_result
  | GetPartnerStatus string int int
  | Logout string
  | Heartbeat string int
  | Typing string jsval int
  | Subscribe string "push_subscription option"
  | TestPush string
  | SendSignal string import_result
  | PostOffer string jsval int
  | PostAnswer string jsval int
  | PostIceCandidate string jsval int
  | GetPoll string
  | PostEnd string int

fun handle :: "(string \<Rightarrow> string) \<Rightarrow> state \<Rightarrow> request \<Rightarrow> response \<times> state" where
  "handle up st (Register i p draws profile now) = auth_register st i p draws profile now"
| "handle up st (Login p now) = auth_login st p now"
| "handle up st (Me me now) = auth_me st me now"
| "handle up st (LinkPartner me code imp) = auth_link_partner up st me code imp"
| "handle up st (GetPartnerStatus me now1 now2) = auth_partner_status st me now1 now2"
| "handle up st (Logout me) = auth_logout st me"
| "handle up st (Heartbeat me now) = auth_heartbeat st me now"
| "handle up st (Typing me v now) = auth_typing st me v now"
| "handle up st (Subscribe me sub) = notifications_subscribe st me sub"
| "handle up st (TestPush me) = notifications_test st me"
| "handle up st (SendSignal me imp) = notifications_send_signal st me imp"
| "handle up st (PostOffer me sdp now) = webrtc_offer st me sdp now"
| "handle up st (PostAnswer me sdp now) = webrtc_answer st me sdp now"
| "handle up st (PostIceCandidate me c now) = webrtc_ice_candidate st me c now"
| "handle up st (GetPoll me) = webrtc_poll st me"
| "handle up st (PostEnd me now) = webrtc_end st me now"

fun admissible :: "request \<Rightarrow> bool" where
  "admissible (Register i p draws profile now) = is_oid i"
| "admissible _ = True"

definition initial_state :: state where
  "initial_state = \<lparr>users = [], signalingStore = Map.empty\<rparr>"

inductive serially_reachable :: "(string \<Rightarrow> string) \<Rightarrow> state \<Rightarrow> bool"
  for up :: "string \<Rightarrow> string" where
  boot: "serially_reachable up initial_state"
| served: "serially_reachable up st \<Longrightarrow> admissible rq \<Longrightarrow>
           serially_reachable up (snd (handle up st rq))"

section \<open>Requests interleaved at their awaits\<close>

text \<open>
  The two writes of the store, as the send handlers perform them after their
  \<^verbatim>\<open>await User.findById\<close>: \<^verbatim>\<open>signalingStore.set(partnerKey, {...})\<close>, and the
  get-or-empty, push, set of the candidate route (a TypeError when the value under the
  key is a message object, which leaves the store as it was).
\<close>

definition setEntry :: "state \<Rightarrow> string \<Rightarrow> entry \<Rightarrow> state" where
  "setEntry st partnerKey e =
     st\<lparr>signalingStore := (signalingStore st)(partnerKey \<mapsto> Signal e)\<rparr>"

definition appendCandidate :: "state \<Rightarrow> string \<Rightarrow> fragment \<Rightarrow> state" where
  "appendCandidate st p f =
     (case signalingStore st (ice_key p) of
        None \<Rightarrow> st\<lparr>signalingStore := (signalingStore st)(ice_key p \<mapsto> Candidates ([] @ [f]))\<rparr>
      | Some (Candidates existing) \<Rightarrow>
          st\<lparr>signalingStore := (signalingStore st)(ice_key p \<mapsto> Candidates (existing @ [f]))\<rparr>
      | Some (Signal e) \<Rightarrow> st)"

text \<open>
  An async handler gives the event loop back at every \<^verbatim>\<open>await\<close>; other handlers run
  until the awaited operation is done. Between two awaits a handler only computes on
  what it holds, so a request is a chain of atomic operations on the shared state (one
  query or save of the collection, or one synchronous block on the store), and any
  other request's operations may come between two of them. A \<open>continuation\<close> is a handler
  suspended at an await, with the values it holds: the operation awaited is the next
  one it performs.
  \<^item> \<open>RegisterInviteCode\<close>: \<^verbatim>\<open>user.generateInviteCode()\<close>, the second save of register;
  \<^item> \<open>UserSave\<close>: \<^verbatim>\<open>user.save()\<close> of login and \<^verbatim>\<open>/me\<close>;
  \<^item> \<open>LinkFindById\<close>, \<open>LinkSaveUser\<close>, \<open>LinkSavePartner\<close>: link-partner at
    \<^verbatim>\<open>User.findById(req.user.id)\<close>, \<^verbatim>\<open>user.save()\<close> and \<^verbatim>\<open>partner.save()\<close>, holding the
    partner document it read, and then the caller's;
  \<^item> \<open>PushFindById\<close>, \<open>PushUnset\<close>: \<^verbatim>\<open>sendToUser\<close> at its \<^verbatim>\<open>findById\<close> and at the
    \<^verbatim>\<open>$unset\<close> after a rejected push;
  \<^item> \<open>StoreSet\<close>, \<open>StorePush\<close>: a send handler after its \<^verbatim>\<open>findById\<close>, about to write
    the store.
\<close>

datatype continuation =
    RegisterInviteCode string string
  | UserSave string int
  | LinkFindById string user import_result
  | LinkSaveUser user user import_result
  | LinkSavePartner user user import_result
  | PushFindById string push_outcome
  | PushUnset string
  | StoreSet string entry
  | StorePush string fragment

text \<open>
  \<open>start\<close>: a request up to and including its first operation on the shared state,
  with the continuation it leaves suspended, if any. \<^verbatim>\<open>GET /poll\<close> has no await: it is one
  operation. The routes with a single \<^verbatim>\<open>findByIdAndUpdate\<close> are one operation too,
  and \<^verbatim>\<open>GET /partner-status\<close> only reads.
\<close>

fun start :: "(string \<Rightarrow> string) \<Rightarrow> state \<Rightarrow> request \<Rightarrow> state \<times> continuation list" where
  "start up st (Register i p draws profile now) =
     (if findById (users st) i \<noteq> None \<or> findOne_publicId (users st) p \<noteq> None then (st, [])
      else (st\<lparr>users := users st
                   @ [new_user i p (if truthy profile then profile else JNull) now]\<rparr>,
            [RegisterInviteCode i (generateInviteCode draws)]))"
| "start up st (Login p now) =
     (if p = [] then (st, [])
      else case findOne_publicId (users st) p of
        None \<Rightarrow> (st, [])
      | Some u \<Rightarrow> (st, [UserSave (uid u) now]))"
| "start up st (Me me now) =
     (case findById (users st) me of
        None \<Rightarrow> (st, [])
      | Some u \<Rightarrow> (st, [UserSave (uid u) now]))"
| "start up st (LinkPartner me code imp) =
     (if \<not> truthy code then (st, [])
      else case code of
        JStr s \<Rightarrow>
          (case findOne_inviteCode (users st) (up s) of
             None \<Rightarrow> (st, [])
           | Some partner \<Rightarrow>
               if uid partner = me then (st, [])
               else if partnerId partner \<noteq> None then (st, [])
               else (st, [LinkFindById me partner imp]))
      | _ \<Rightarrow> (st, []))"
| "start up st (GetPartnerStatus me now1 now2) = (st, [])"
| "start up st (Logout me) = (snd (auth_logout st me), [])"
| "start up st (Heartbeat me now) = (snd (auth_heartbeat st me now), [])"
| "start up st (Typing me v now) = (snd (auth_typing st me v now), [])"
| "start up st (Subscribe me sub) = (snd (notifications_subscribe st me sub), [])"
| "start up st (TestPush me) = (st, [])"
| "start up st (SendSignal me imp) =
     (case findById (users st) me of
        None \<Rightarrow> (st, [])
      | Some u \<Rightarrow>
          (case partnerId u of
             None \<Rightarrow> (st, [])
           | Some p \<Rightarrow>
               (case imp of
                  ImportThrows \<Rightarrow> (st, [])
                | Imported outcome \<Rightarrow> (st, [PushFindById p outcome]))))"
| "start up st (PostOffer me sdp now) =
     (if \<not> truthy sdp then (st, [])
      else case findById (users st) me of
        None \<Rightarrow> (st, [])
      | Some u \<Rightarrow>
          (case partnerId u of
             None \<Rightarrow> (st, [])
           | Some partnerKey \<Rightarrow> (st, [StoreSet partnerKey (Offer sdp me now)])))"
| "start up st (PostAnswer me sdp now) =
     (if \<not> truthy sdp then (st, [])
      else case findById (users st) me of
        None \<Rightarrow> (st, [])
      | Some u \<Rightarrow>
          (case partnerId u of
             None \<Rightarrow> (st, [])
           | Some partnerKey \<Rightarrow> (st, [StoreSet partnerKey (Answer sdp me now)])))"
| "start up st (PostIceCandidate me candidate now) =
     (case findById (users st) me of
        None \<Rightarrow> (st, [])
      | Some u \<Rightarrow>
          (case partnerId u of
             None \<Rightarrow> (st, [])
           | Some p \<Rightarrow> (st, [StorePush p (Fragment candidate me now)])))"
| "start up st (GetPoll me) = (snd (webrtc_poll st me), [])"
| "start up st (PostEnd me now) =
     (case findById (users st) me of
        None \<Rightarrow> (st, [])
      | Some u \<Rightarrow>
          (case partnerId u of
             None \<Rightarrow> (st, [])
           | Some partnerKey \<Rightarrow> (st, [StoreSet partnerKey (End me now)])))"

text \<open>\<open>resume\<close>: the operation a continuation was waiting for, and the continuation that follows.\<close>

fun resume :: "state \<Rightarrow> continuation \<Rightarrow> state \<times> continuation list" where
  "resume st (RegisterInviteCode i code) =
     (if findOne_inviteCode (users st) code \<noteq> None then (st, [])
      else (st\<lparr>users := findByIdAndUpdate (users st) i (\<lambda>u. u\<lparr>inviteCode := Some code\<rparr>)\<rparr>,
            []))"
| "resume st (UserSave i now) =
     (st\<lparr>users := findByIdAndUpdate (users st) i
            (\<lambda>u. u\<lparr>lastActiveAt := now, isOnline := True\<rparr>)\<rparr>, [])"
| "resume st (LinkFindById me partner imp) =
     (case findById (users st) me of
        None \<Rightarrow> (st, [])
      | Some user \<Rightarrow>
          if partnerId user \<noteq> None then (st, [])
          else (st, [LinkSaveUser user partner imp]))"
| "resume st (LinkSaveUser user partner imp) =
     (st\<lparr>users := findByIdAndUpdate (users st) (uid user)
            (\<lambda>u. u\<lparr>partnerId := Some (uid partner)\<rparr>)\<rparr>,
      [LinkSavePartner user partner imp])"
| "resume st (LinkSavePartner user partner imp) =
     (st\<lparr>users := findByIdAndUpdate (users st) (uid partner)
            (\<lambda>u. u\<lparr>partnerId := Some (uid user)\<rparr>)\<rparr>,
      case imp of
        ImportThrows \<Rightarrow> []
      | Imported outcome \<Rightarrow> [PushFindById (uid partner) outcome])"
| "resume st (PushFindById userId outcome) =
     (case findById (users st) userId of
        None \<Rightarrow> (st, [])
      | Some u \<Rightarrow>
          (case pushSubscription u of
             None \<Rightarrow> (st, [])
           | Some sub \<Rightarrow>
               (case endpoint sub of
                  None \<Rightarrow> (st, [])
                | Some e \<Rightarrow>
                    if e = [] then (st, [])
                    else (case outcome of
                            Delivered \<Rightarrow> (st, [])
                          | Gone \<Rightarrow> (st, [PushUnset userId])
                          | Failed \<Rightarrow> (st, [])))))"
| "resume st (PushUnset userId) =
     (st\<lparr>users := findByIdAndUpdate (users st) userId (\<lambda>u. u\<lparr>pushSubscription := None\<rparr>)\<rparr>,
      [])"
| "resume st (StoreSet partnerKey e) = (setEntry st partnerKey e, [])"
| "resume st (StorePush p f) = (appendCandidate st p f, [])"

text \<open>
  A configuration is the shared state with the continuations suspended. A request arrives and
  runs to its first await, or the \<open>i\<close>-th suspended continuation runs to its next await (its
  successor takes its place); nothing else happens. \<open>reachable\<close> are the states of the
  configurations reached that way, in any order.
\<close>

type_synonym config = "state \<times> continuation list"

definition arrive :: "(string \<Rightarrow> string) \<Rightarrow> request \<Rightarrow> config \<Rightarrow> config" where
  "arrive up rq c = (case start up (fst c) rq of (st', new) \<Rightarrow> (st', snd c @ new))"

definition resume_at :: "nat \<Rightarrow> config \<Rightarrow> config" where
  "resume_at i c =
     (if i < length (snd c)
      then (case resume (fst c) (snd c ! i) of
              (st', new) \<Rightarrow> (st', take i (snd c) @ new @ drop (Suc i) (snd c)))
      else c)"

inductive reachable_config :: "(string \<Rightarrow> string) \<Rightarrow> config \<Rightarrow> bool"
  for up :: "string \<Rightarrow> string" where
  boot: "reachable_config up (initial_state, [])"
| arrival: "reachable_config up c \<Longrightarrow> admissible rq \<Longrightarrow> reachable_config up (arrive up rq c)"
| resumption: "reachable_config up c \<Longrightarrow> reachable_config up (resume_at i c)"

definition reachable :: "(string \<Rightarrow> string) \<Rightarrow> state \<Rightarrow> bool" where
  "reachable up st \<longleftrightarrow> (\<exists>ts. reachable_config up (st, ts))"

text \<open>
  \<open>settle\<close> runs the first suspended continuation, and its successors, to the end: no chain
  of continuations is longer than the five of link-partner.
\<close>

definition settle :: "config \<Rightarrow> config" where
  "settle c = resume_at 0 (resume_at 0 (resume_at 0 (resume_at 0 (resume_at 0 c))))"

section \<open>Invariants\<close>



text \<open>
  Every account's \<^verbatim>\<open>_id\<close> and every partner pointer is an ObjectId, and so is every
  id a suspended continuation holds for a write.
\<close>

definition oid_users :: "users \<Rightarrow> bool" where
  "oid_users db \<longleftrightarrow> (\<forall>u\<in>set db. is_oid (uid u))"

definition oid_partners :: "users \<Rightarrow> bool" where
  "oid_partners db \<longleftrightarrow> (\<forall>u\<in>set db. \<forall>b. partnerId u = Some b \<longrightarrow> is_oid b)"

fun continuation_ok :: "continuation \<Rightarrow> bool" where
  "continuation_ok (LinkFindById me partner imp) = is_oid (uid partner)"
| "continuation_ok (LinkSaveUser user partner imp) = (is_oid (uid user) \<and> is_oid (uid partner))"
| "continuation_ok (LinkSavePartner user partner imp) = (is_oid (uid user) \<and> is_oid (uid partner))"
| "continuation_ok (StoreSet partnerKey e) = is_oid partnerKey"
| "continuation_ok (StorePush p f) = is_oid p"
| "continuation_ok _ = True"

definition state_ok :: "state \<Rightarrow> bool" where
  "state_ok st \<longleftrightarrow>
     oid_users (users st) \<and> oid_partners (users st) \<and> typed_store (signalingStore st)"

definition config_ok :: "config \<Rightarrow> bool" where
  "config_ok c \<longleftrightarrow> state_ok (fst c) \<and> list_all continuation_ok (snd c)"

section \<open>Sample data\<close>

definition sample_user :: "string \<Rightarrow> string option \<Rightarrow> user" where
  "sample_user i p =
     \<lparr>uid = i, publicId = ''pub-'' @ i, encryptedProfile = JNull, partnerId = p,
      inviteCode = None, pushSubscription = None, createdAt = 0, lastActiveAt = 0,
      isOnline = False, isTyping = False, typingAt = None\<rparr>"

definition alice :: string where
  "alice = ''64b7f0c2a1d3e4f5a6b7c8d1''"

definition bob :: string where
  "bob = ''64b7f0c2a1d3e4f5a6b7c8d2''"

definition carol :: string where
  "carol = ''64b7f0c2a1d3e4f5a6b7c8d3''"

text \<open>Alice and Bob are linked with each other; Carol has an account and no partner.\<close>

definition sample_state :: state where
  "sample_state =
     \<lparr>users = [sample_user alice (Some bob), sample_user bob (Some alice),
               sample_user carol None],
      signalingStore = Map.empty\<rparr>"

definition typing_user :: user where
  "typing_user = (sample_user alice (Some bob))
                   \<lparr>lastActiveAt := 1000000, isOnline := True, isTyping := True,
                    typingAt := Some 1299000\<rparr>"

definition presence_state :: state where
  "presence_state =
     \<lparr>users = [typing_user, sample_user bob (Some alice)], signalingStore = Map.empty\<rparr>"

text \<open>
  On a string of ASCII characters JavaScript's \<^verbatim>\<open>toUpperCase\<close> is this function; the
  sample runs apply it to such strings only.
\<close>

definition ascii_upper_char :: "char \<Rightarrow> char" where
  "ascii_upper_char c =
     (let n = (of_char c :: nat) in if 97 \<le> n \<and> n \<le> 122 then char_of (n - 32) else c)"

definition ascii_upper :: "string \<Rightarrow> string" where
  "ascii_upper s = map ascii_upper_char s"







section \<open>Properties of the signaling relay\<close>

lemma partner_of_cases:
  "partner_of st a = None \<longleftrightarrow>
     (findById (users st) a = None \<or> (\<exists>u. findById (users st) a = Some u \<and> partnerId u = None))"
  by (auto simp: partner_of_def split: option.splits)

lemma partner_of_sample [simp]:
  "partner_of sample_state alice = Some bob"
  "partner_of sample_state bob = Some alice"
  "partner_of sample_state carol = None"
  "partner_of sample_state ''000000000000000000000000'' = None"
  by (simp_all add: partner_of_def findById_def sample_state_def sample_user_def
        alice_def bob_def carol_def)

text \<open>
  Claim C7. An identity with no resolvable partner (account missing, or
  \<^verbatim>\<open>partnerId\<close> null) that calls \<^verbatim>\<open>POST /end\<close> gets the success acknowledgement, no
  error, and the whole state, so every recipient's slot and queue, is as before.
\<close>

theorem end_unpaired_noop:
  "partner_of st me = None \<Longrightarrow> webrtc_end st me now = (SuccessTrue, st)"
  by (auto simp: partner_of_def webrtc_end_def split: option.splits)

theorem end_unpaired_noop_witness:
  "partner_of sample_state carol = None
   \<and> webrtc_end sample_state carol 1700000000000 = (SuccessTrue, sample_state)"
  using end_unpaired_noop [of sample_state carol 1700000000000] by simp

lemma ice_key_not_oid: "\<not> is_oid (ice_key r)"
  by (simp add: is_oid_def ice_key_def hex_digit_def)

lemma ice_key_neq [simp]: "ice_key r \<noteq> r" "r \<noteq> ice_key r"
  by (auto simp: ice_key_def dest: arg_cong [where f = length])

lemma ice_key_inj [simp]: "ice_key r = ice_key s \<longleftrightarrow> r = s"
  by (simp add: ice_key_def)

lemma typed_store_no_signal:
  "typed_store m \<Longrightarrow> m (ice_key r) \<noteq> Some (Signal e)"
  using ice_key_not_oid by (fastforce simp: typed_store_def)

lemma typed_store_empty [simp]: "typed_store Map.empty"
  by (simp add: typed_store_def)

lemma is_oid_samples [simp]: "is_oid alice" "is_oid bob" "is_oid carol"
  by (simp_all add: is_oid_def hex_digit_def alice_def bob_def carol_def)

text \<open>
  Claim C4, as amended. An identity with no resolvable partner (account missing, or
  \<^verbatim>\<open>partnerId\<close> null) is refused by \<^verbatim>\<open>POST /ice-candidate\<close> always, and by
  \<^verbatim>\<open>POST /offer\<close> and \<^verbatim>\<open>POST /answer\<close> whenever the \<^verbatim>\<open>sdp\<close> field is present, with
  status 400 \<^verbatim>\<open>No partner connected\<close>. With \<^verbatim>\<open>sdp\<close> absent the payload check comes
  first and the refusal is \<^verbatim>\<open>SDP offer required\<close> or \<^verbatim>\<open>SDP answer required\<close>. In each
  of these cases the state returned is the state given: no slot and no queue changes.
\<close>

theorem unpaired_send_rejected:
  assumes "partner_of st me = None"
  shows "webrtc_ice_candidate st me c now = (ErrorStatus 400 ''No partner connected'', st)
       \<and> (truthy sdp \<longrightarrow>
            webrtc_offer st me sdp now = (ErrorStatus 400 ''No partner connected'', st)
          \<and> webrtc_answer st me sdp now = (ErrorStatus 400 ''No partner connected'', st))
       \<and> (\<not> truthy sdp \<longrightarrow>
            webrtc_offer st me sdp now = (ErrorStatus 400 ''SDP offer required'', st)
          \<and> webrtc_answer st me sdp now = (ErrorStatus 400 ''SDP answer required'', st))"
  using assms
  by (auto simp: partner_of_def webrtc_offer_def webrtc_answer_def webrtc_ice_candidate_def
           split: option.splits)

theorem unpaired_send_rejected_witness:
  "partner_of sample_state carol = None
   \<and> webrtc_ice_candidate sample_state carol JUndefined 7
       = (ErrorStatus 400 ''No partner connected'', sample_state)
   \<and> webrtc_offer sample_state carol (JStr ''v=0'') 7
       = (ErrorStatus 400 ''No partner connected'', sample_state)
   \<and> webrtc_answer sample_state carol (JStr ''v=0'') 7
       = (ErrorStatus 400 ''No partner connected'', sample_state)
   \<and> webrtc_offer sample_state carol JNull 7
       = (ErrorStatus 400 ''SDP offer required'', sample_state)"
  using unpaired_send_rejected [of sample_state carol JUndefined 7 "JStr ''v=0''"]
        unpaired_send_rejected [of sample_state carol JUndefined 7 JNull]
  by simp

text \<open>
  Claim C4 as it is written fails: Carol has no partner, and her offer without an
  \<^verbatim>\<open>sdp\<close> field is refused for the missing payload, not for the missing partner.
\<close>

theorem unpaired_offer_counterexample:
  "partner_of sample_state carol = None
   \<and> fst (webrtc_offer sample_state carol JUndefined 7) = ErrorStatus 400 ''SDP offer required''
   \<and> fst (webrtc_offer sample_state carol JUndefined 7) \<noteq> ErrorStatus 400 ''No partner connected''"
  by (simp add: webrtc_offer_def)

text \<open>
  Claim C6. For a caller with a partner: \<^verbatim>\<open>POST /offer\<close> and \<^verbatim>\<open>POST /answer\<close> with the
  \<^verbatim>\<open>sdp\<close> field absent (or falsy) are refused with status 400 and the state is unchanged;
  \<^verbatim>\<open>POST /ice-candidate\<close> looks at no field, so whatever \<^verbatim>\<open>candidate\<close> is, absent
  included, it answers \<^verbatim>\<open>{success: true}\<close> and appends the fragment to the partner's queue.
  The store is taken well typed, as the store of every reachable state is
  (\<open>reachable_typed_store\<close> below).
\<close>

theorem payload_validation_asymmetry:
  assumes "partner_of st me = Some p" and "typed_store (signalingStore st)"
  shows "(\<not> truthy sdp \<longrightarrow>
            webrtc_offer st me sdp now = (ErrorStatus 400 ''SDP offer required'', st)
          \<and> webrtc_answer st me sdp now = (ErrorStatus 400 ''SDP answer required'', st))
       \<and> webrtc_ice_candidate st me candidate now =
           (SuccessTrue,
            st\<lparr>signalingStore := (signalingStore st)
                  (ice_key p \<mapsto> Candidates (queue_of st p @ [Fragment candidate me now]))\<rparr>)"
  using assms typed_store_no_signal [OF assms(2), of p]
  by (auto simp: partner_of_def webrtc_offer_def webrtc_answer_def webrtc_ice_candidate_def
                 queue_of_def
           split: option.splits sval.splits)

theorem payload_validation_asymmetry_witness:
  "partner_of sample_state alice = Some bob \<and> typed_store (signalingStore sample_state)
   \<and> webrtc_offer sample_state alice JUndefined 7
       = (ErrorStatus 400 ''SDP offer required'', sample_state)
   \<and> webrtc_answer sample_state alice JUndefined 7
       = (ErrorStatus 400 ''SDP answer required'', sample_state)
   \<and> fst (webrtc_ice_candidate sample_state alice JUndefined 7) = SuccessTrue
   \<and> signalingStore (snd (webrtc_ice_candidate sample_state alice JUndefined 7)) (ice_key bob)
       = Some (Candidates [Fragment JUndefined alice 7])"
proof -
  have t: "typed_store (signalingStore sample_state)"
    by (simp add: sample_state_def)
  have q: "queue_of sample_state bob = []"
    by (simp add: queue_of_def sample_state_def)
  show ?thesis
    using payload_validation_asymmetry [of sample_state alice bob JUndefined 7 JUndefined] t q
    by simp
qed

lemma poll_drained:
  "drained st me \<Longrightarrow> webrtc_poll st me = (PollResult None (Candidates []), st)"
  by (auto simp: drained_def webrtc_poll_def Let_def)

lemma polls_drained: "drained st me \<Longrightarrow> polls n me st = st"
  by (induction n) (simp_all add: poll_drained)

lemma poll_signal:
  "\<exists>ice. fst (webrtc_poll st me) = PollResult (signalingStore st me) ice"
  by (simp add: webrtc_poll_def Let_def)

lemma poll_clears_slot: "signalingStore (snd (webrtc_poll st me)) me = None"
  by (simp add: webrtc_poll_def Let_def)

lemma empty_array:
  "\<forall>e. v \<noteq> Signal e \<Longrightarrow> \<not> nonempty_array v \<Longrightarrow> v = Candidates []"
  by (cases v) auto

lemma poll_leaves_drained:
  assumes "\<forall>e. signalingStore st (ice_key me) \<noteq> Some (Signal e)"
  shows "drained (snd (webrtc_poll st me)) me"
  using assms
  by (auto simp: drained_def webrtc_poll_def Let_def empty_array split: option.splits)

lemma offer_paired:
  "partner_of st a = Some b \<Longrightarrow> truthy p \<Longrightarrow>
   webrtc_offer st a p now =
     (SuccessTrue, st\<lparr>signalingStore := (signalingStore st)(b \<mapsto> Signal (Offer p a now))\<rparr>)"
  by (auto simp: partner_of_def webrtc_offer_def split: option.splits)

text \<open>
  Claim C1. When \<open>a\<close>'s partner is \<open>b\<close>, an offer from \<open>a\<close> with payload \<open>p\<close>
  (a present, that is truthy, \<^verbatim>\<open>sdp\<close>) followed by a poll from \<open>b\<close> returns the message
  \<^verbatim>\<open>{type: 'offer', sdp: p, from: a, timestamp}\<close> and removes it from \<open>b\<close>'s slot; every
  later poll from \<open>b\<close>, however many, returns no message and an empty candidate array
  and leaves the state as it is. The store is taken well typed, as the store of every
  reachable state is (\<open>reachable_typed_store\<close> below): under \<open>b\<close>'s \<^verbatim>\<open>ice-\<close> key there
  is an array or nothing.
\<close>

theorem offer_then_poll:
  assumes "partner_of st a = Some b" and "truthy p" and "typed_store (signalingStore st)"
  shows "let st1 = snd (webrtc_offer st a p now);
             st2 = snd (webrtc_poll st1 b)
         in fst (webrtc_offer st a p now) = SuccessTrue
          \<and> (\<exists>ice. fst (webrtc_poll st1 b) = PollResult (Some (Signal (Offer p a now))) ice)
          \<and> signalingStore st2 b = None
          \<and> (\<forall>n. webrtc_poll (polls n b st2) b
                   = (PollResult None (Candidates []), polls n b st2))"
proof -
  define st1 where "st1 = snd (webrtc_offer st a p now)"
  define st2 where "st2 = snd (webrtc_poll st1 b)"
  have o: "webrtc_offer st a p now =
     (SuccessTrue, st\<lparr>signalingStore := (signalingStore st)(b \<mapsto> Signal (Offer p a now))\<rparr>)"
    using assms(1,2) by (rule offer_paired)
  have s1: "signalingStore st1 b = Some (Signal (Offer p a now))"
    by (simp add: st1_def o)
  have "signalingStore st1 (ice_key b) = signalingStore st (ice_key b)"
    by (simp add: st1_def o)
  then have ns: "\<forall>e. signalingStore st1 (ice_key b) \<noteq> Some (Signal e)"
    using typed_store_no_signal [OF assms(3)] by simp
  have d: "drained st2 b"
    unfolding st2_def using ns by (rule poll_leaves_drained)
  have 1: "fst (webrtc_offer st a p now) = SuccessTrue"
    by (simp add: o)
  have 2: "\<exists>ice. fst (webrtc_poll st1 b) = PollResult (Some (Signal (Offer p a now))) ice"
    using poll_signal [of st1 b] s1 by simp
  have 3: "signalingStore st2 b = None"
    unfolding st2_def by (rule poll_clears_slot)
  have 4: "\<forall>n. webrtc_poll (polls n b st2) b
                   = (PollResult None (Candidates []), polls n b st2)"
    using d by (simp add: polls_drained poll_drained)
  show ?thesis
    using 1 2 3 4 by (simp add: Let_def st1_def st2_def)
qed

theorem offer_then_poll_witness:
  "partner_of sample_state alice = Some bob \<and> truthy (JStr ''v=0'')
   \<and> typed_store (signalingStore sample_state)
   \<and> fst (webrtc_poll (snd (webrtc_offer sample_state alice (JStr ''v=0'') 7)) bob)
       = PollResult (Some (Signal (Offer (JStr ''v=0'') alice 7))) (Candidates [])
   \<and> webrtc_poll (polls 0 bob
         (snd (webrtc_poll (snd (webrtc_offer sample_state alice (JStr ''v=0'') 7)) bob))) bob
       = (PollResult None (Candidates []), sample_state)"
proof -
  have t: "typed_store (signalingStore sample_state)"
    by (simp add: sample_state_def)
  have e: "signalingStore sample_state = Map.empty"
    by (simp add: sample_state_def)
  have o: "webrtc_offer sample_state alice (JStr ''v=0'') 7 =
     (SuccessTrue, sample_state\<lparr>signalingStore := [bob \<mapsto> Signal (Offer (JStr ''v=0'') alice 7)]\<rparr>)"
    by (simp add: offer_paired e)
  have p: "webrtc_poll (sample_state\<lparr>signalingStore := [bob \<mapsto> Signal (Offer (JStr ''v=0'') alice 7)]\<rparr>) bob
      = (PollResult (Some (Signal (Offer (JStr ''v=0'') alice 7))) (Candidates []), sample_state)"
    by (simp add: webrtc_poll_def Let_def sample_state_def)
  have a: "partner_of sample_state alice = Some bob" and b: "truthy (JStr ''v=0'')"
    by simp_all
  note T = offer_then_poll [OF a b t, of 7, unfolded Let_def]
  note T2 = T [THEN conjunct2, THEN conjunct1]
  note T4 = T [THEN conjunct2, THEN conjunct2, THEN conjunct2, THEN spec, of 0]
  show ?thesis
    using a b t T2 T4 by (simp add: o p)
qed

lemma ice_candidate_paired:
  assumes "partner_of st me = Some r" and "no_message_at st (ice_key r)"
  shows "webrtc_ice_candidate st me c now =
           (SuccessTrue,
            st\<lparr>signalingStore := (signalingStore st)
                  (ice_key r \<mapsto> Candidates (queue_of st r @ [Fragment c me now]))\<rparr>)"
  using assms
  by (auto simp: partner_of_def webrtc_ice_candidate_def queue_of_def no_message_at_def
           split: option.splits sval.splits)

lemma partner_of_store [simp]:
  "partner_of (st\<lparr>signalingStore := m\<rparr>) a = partner_of st a"
  by (simp add: partner_of_def)

lemma send_candidates_queue:
  assumes "\<forall>x\<in>set rs. partner_of st (fst x) = Some r" and "no_message_at st (ice_key r)"
  shows "queue_of (send_candidates st rs) r = queue_of st r @ map fragment_of rs
       \<and> no_message_at (send_candidates st rs) (ice_key r)
       \<and> candidate_acks st rs = replicate (length rs) SuccessTrue
       \<and> signalingStore (send_candidates st rs) r = signalingStore st r"
  using assms
proof (induction rs arbitrary: st)
  case Nil
  then show ?case by simp
next
  case (Cons x rs)
  obtain me c now where x: "x = (me, c, now)" by (cases x) auto
  let ?st' = "st\<lparr>signalingStore := (signalingStore st)
                  (ice_key r \<mapsto> Candidates (queue_of st r @ [Fragment c me now]))\<rparr>"
  have p: "partner_of st me = Some r" using Cons.prems(1) x by simp
  have step: "webrtc_ice_candidate st me c now = (SuccessTrue, ?st')"
    using p Cons.prems(2) by (rule ice_candidate_paired)
  have q': "queue_of ?st' r = queue_of st r @ [Fragment c me now]"
    by (simp add: queue_of_def)
  have n': "no_message_at ?st' (ice_key r)"
    by (simp add: no_message_at_def)
  have ps: "\<forall>x\<in>set rs. partner_of ?st' (fst x) = Some r"
    using Cons.prems(1) by simp
  have sl: "signalingStore ?st' r = signalingStore st r" by simp
  note IH = Cons.IH [OF ps n']
  show ?case
    using IH sl by (simp add: x step q')
qed

lemma poll_candidates:
  "no_message_at st (ice_key me) \<Longrightarrow>
   fst (webrtc_poll st me) = PollResult (signalingStore st me) (Candidates (queue_of st me))"
  by (auto simp: webrtc_poll_def Let_def queue_of_def no_message_at_def
           split: option.splits sval.splits)

text \<open>
  Claim C2. \<open>N = length rs\<close> candidate requests, each from a caller whose partner is the
  recipient \<open>r\<close>, sent while \<open>r\<close>'s queue key is not set (nothing appended since the
  queue was last emptied): every one is acknowledged, the next poll by \<open>r\<close> returns
  the \<open>N\<close> fragments in the order they were sent, and the poll after that returns
  no message and an empty array. \<open>N = 0\<close> is the empty list.
\<close>

theorem candidates_drained_in_order:
  assumes "\<forall>x\<in>set rs. partner_of st (fst x) = Some r"
      and "signalingStore st (ice_key r) = None"
  shows "let st1 = send_candidates st rs;
             st2 = snd (webrtc_poll st1 r)
         in candidate_acks st rs = replicate (length rs) SuccessTrue
          \<and> fst (webrtc_poll st1 r)
              = PollResult (signalingStore st r) (Candidates (map fragment_of rs))
          \<and> webrtc_poll st2 r = (PollResult None (Candidates []), st2)"
proof -
  define st1 where "st1 = send_candidates st rs"
  define st2 where "st2 = snd (webrtc_poll st1 r)"
  have n: "no_message_at st (ice_key r)"
    using assms(2) by (simp add: no_message_at_def)
  have q0: "queue_of st r = []"
    using assms(2) by (simp add: queue_of_def)
  note F = send_candidates_queue [OF assms(1) n]
  have q1: "queue_of st1 r = map fragment_of rs"
    using F q0 by (simp add: st1_def)
  have n1: "no_message_at st1 (ice_key r)"
    using F by (simp add: st1_def)
  have slot: "signalingStore st1 r = signalingStore st r"
    using F by (simp add: st1_def)
  have d: "drained st2 r"
    unfolding st2_def using n1 by (intro poll_leaves_drained) (simp add: no_message_at_def)
  have 1: "candidate_acks st rs = replicate (length rs) SuccessTrue"
    using F by simp
  have 2: "fst (webrtc_poll st1 r)
              = PollResult (signalingStore st r) (Candidates (map fragment_of rs))"
    using poll_candidates [OF n1] q1 slot by simp
  have 3: "webrtc_poll st2 r = (PollResult None (Candidates []), st2)"
    using d by (rule poll_drained)
  show ?thesis
    using 1 2 3 by (simp add: Let_def st1_def st2_def)
qed

theorem candidates_drained_in_order_witness:
  "partner_of sample_state alice = Some bob
   \<and> signalingStore sample_state (ice_key bob) = None
   \<and> fst (webrtc_poll
          (send_candidates sample_state
             [(alice, JStr ''c1'', 1), (alice, JUndefined, 2), (alice, JStr ''c3'', 3)]) bob)
       = PollResult None
           (Candidates [Fragment (JStr ''c1'') alice 1, Fragment JUndefined alice 2,
                        Fragment (JStr ''c3'') alice 3])"
proof -
  have a: "\<forall>x\<in>set [(alice, JStr ''c1'', 1), (alice, JUndefined, 2), (alice, JStr ''c3'', 3)].
       partner_of sample_state (fst x) = Some bob"
    by simp
  have b: "signalingStore sample_state (ice_key bob) = None"
    by (simp add: sample_state_def)
  have c: "signalingStore sample_state bob = None"
    by (simp add: sample_state_def)
  show ?thesis
    using a b c candidates_drained_in_order [OF a b, unfolded Let_def] by simp
qed

lemma send_one_paired:
  assumes "partner_of st a = Some b"
  shows "snd (send_one st a x) =
           (if has_payload x
            then st\<lparr>signalingStore := (signalingStore st)(b \<mapsto> Signal (entry_of a x))\<rparr>
            else st)"
proof -
  obtain s now where x: "x = (s, now)" by (cases x)
  show ?thesis
    using assms
    by (cases s)
       (auto simp: x partner_of_def webrtc_offer_def webrtc_answer_def webrtc_end_def
             split: option.splits)
qed

lemma sends_slot:
  assumes "partner_of st a = Some b"
  shows "signalingStore (sends st a xs) b =
           (if filter has_payload xs = [] then signalingStore st b
            else Some (Signal (entry_of a (last (filter has_payload xs)))))"
  using assms
proof (induction xs arbitrary: st)
  case Nil
  then show ?case by simp
next
  case (Cons x xs)
  show ?case
  proof (cases "has_payload x")
    case True
    let ?st' = "st\<lparr>signalingStore := (signalingStore st)(b \<mapsto> Signal (entry_of a x))\<rparr>"
    have step: "snd (send_one st a x) = ?st'"
      using send_one_paired [OF Cons.prems, of x] True by simp
    have p: "partner_of ?st' a = Some b" using Cons.prems by simp
    show ?thesis
      using Cons.IH [OF p] True by (simp add: step)
  next
    case False
    have step: "snd (send_one st a x) = st"
      using send_one_paired [OF Cons.prems, of x] False by simp
    show ?thesis
      using Cons.IH [OF Cons.prems] False by (simp add: step)
  qed
qed

text \<open>
  Claim C3. When \<open>a\<close>'s partner is \<open>b\<close>, after any sequence of offer, answer and end
  requests from \<open>a\<close> of which at least one was written, \<open>b\<close>'s slot holds exactly the
  message of the last request written, and \<open>b\<close>'s next poll returns that one message
  (the response has a single \<^verbatim>\<open>signal\<close> field). In particular, after two offers the
  poll returns the second.
\<close>

theorem last_write_wins:
  assumes "partner_of st a = Some b" and "filter has_payload xs \<noteq> []"
  shows "signalingStore (sends st a xs) b
           = Some (Signal (entry_of a (last (filter has_payload xs))))
       \<and> (\<exists>ice. fst (webrtc_poll (sends st a xs) b)
                  = PollResult (Some (Signal (entry_of a (last (filter has_payload xs))))) ice)
       \<and> (truthy p1 \<and> truthy p2 \<longrightarrow>
            (\<exists>ice. fst (webrtc_poll (sends st a [(SendOffer p1, t1), (SendOffer p2, t2)]) b)
                  = PollResult (Some (Signal (Offer p2 a t2))) ice))"
proof -
  have 1: "signalingStore (sends st a xs) b
           = Some (Signal (entry_of a (last (filter has_payload xs))))"
    using sends_slot [OF assms(1), of xs] assms(2) by simp
  have 2: "\<exists>ice. fst (webrtc_poll (sends st a xs) b)
                  = PollResult (Some (Signal (entry_of a (last (filter has_payload xs))))) ice"
    using poll_signal [of "sends st a xs" b] 1 by simp
  have 3: "\<exists>ice. fst (webrtc_poll (sends st a [(SendOffer p1, t1), (SendOffer p2, t2)]) b)
                  = PollResult (Some (Signal (Offer p2 a t2))) ice"
    if "truthy p1" "truthy p2"
  proof -
    have "signalingStore (sends st a [(SendOffer p1, t1), (SendOffer p2, t2)]) b
            = Some (Signal (Offer p2 a t2))"
      using sends_slot [OF assms(1), of "[(SendOffer p1, t1), (SendOffer p2, t2)]"] that
      by simp
    then show ?thesis
      using poll_signal [of "sends st a [(SendOffer p1, t1), (SendOffer p2, t2)]" b] by simp
  qed
  show ?thesis using 1 2 3 by blast
qed

theorem last_write_wins_witness:
  "partner_of sample_state alice = Some bob
   \<and> filter has_payload [(SendOffer (JStr ''o1''), 1), (SendEnd, 2), (SendAnswer JNull, 3),
                          (SendOffer (JStr ''o2''), 4)] \<noteq> []
   \<and> signalingStore
        (sends sample_state alice
           [(SendOffer (JStr ''o1''), 1), (SendEnd, 2), (SendAnswer JNull, 3),
            (SendOffer (JStr ''o2''), 4)]) bob
       = Some (Signal (Offer (JStr ''o2'') alice 4))"
proof -
  have a: "partner_of sample_state alice = Some bob" by simp
  have b: "filter has_payload [(SendOffer (JStr ''o1''), 1), (SendEnd, 2), (SendAnswer JNull, 3),
                          (SendOffer (JStr ''o2''), 4)] \<noteq> []" by simp
  show ?thesis
    using a b last_write_wins [OF a b, THEN conjunct1] by simp
qed

section \<open>Properties of presence and pairing\<close>

lemma findById_update:
  assumes "\<And>u. uid (f u) = uid u"
  shows "findById (findByIdAndUpdate db i f) j
           = map_option (\<lambda>u. if uid u = i then f u else u) (findById db j)"
  using assms by (induction db) (auto simp: findById_def findByIdAndUpdate_def)

lemma findById_uid: "findById db i = Some u \<Longrightarrow> uid u = i"
  by (induction db) (auto simp: findById_def split: if_splits)

text \<open>
  Claim C5. When \<open>x\<close> is the partner of the caller and has an account, the status
  returned is \<^verbatim>\<open>connected: true\<close> with \<^verbatim>\<open>isOnline\<close> = the stored flag and less than 5 minutes
  between \<^verbatim>\<open>lastActiveAt\<close> and the clock, \<^verbatim>\<open>isTyping\<close> = the stored flag and less than
  5 seconds between \<^verbatim>\<open>typingAt\<close> and the clock (a null \<^verbatim>\<open>typingAt\<close> counts as time 0).
  In particular 5 minutes and 1 second after \<open>x\<close>'s last activity \<^verbatim>\<open>isOnline\<close> is false
  whatever the stored flag is.
\<close>

theorem partner_status_derived:
  assumes "partner_of st me = Some x" and "findById (users st) x = Some ux"
  shows "auth_partner_status st me now1 now2 =
           (PartnerStatus
              (isOnline ux \<and> now1 - lastActiveAt ux < 5 * 60 * 1000)
              (lastActiveAt ux)
              (isTyping ux \<and> (case typingAt ux of
                                 Some t \<Rightarrow> now2 - t < 5 * 1000
                               | None \<Rightarrow> now2 < 5 * 1000)), st)
       \<and> (\<exists>ty. auth_partner_status st me (lastActiveAt ux + (5 * 60 * 1000 + 1000)) now2 =
                  (PartnerStatus False (lastActiveAt ux) ty, st))"
  using assms
  by (auto simp: partner_of_def auth_partner_status_def Let_def split: option.splits)

theorem partner_status_derived_witness:
  "partner_of presence_state bob = Some alice
   \<and> findById (users presence_state) alice = Some typing_user
   \<and> auth_partner_status presence_state bob 1299999 1303999
       = (PartnerStatus True 1000000 True, presence_state)
   \<and> auth_partner_status presence_state bob 1301000 1304000
       = (PartnerStatus False 1000000 False, presence_state)"
proof -
  have a: "partner_of presence_state bob = Some alice"
    by (simp add: partner_of_def findById_def presence_state_def typing_user_def
          sample_user_def alice_def bob_def)
  have b: "findById (users presence_state) alice = Some typing_user"
    by (simp add: findById_def presence_state_def typing_user_def sample_user_def)
  have c: "isOnline typing_user" "lastActiveAt typing_user = 1000000"
       "isTyping typing_user" "typingAt typing_user = Some 1299000"
    by (simp_all add: typing_user_def)
  show ?thesis
    using a b partner_status_derived [OF a b, of 1299999 1303999, THEN conjunct1]
      partner_status_derived [OF a b, of 1301000 1304000, THEN conjunct1]
    by (simp add: c)
qed

text \<open>
  Claim C10, as amended. For a caller with an account and every value \<open>v\<close> of the
  \<^verbatim>\<open>isTyping\<close> field: the response is \<^verbatim>\<open>{ok: true}\<close>; the stored flag is true exactly
  when \<open>v\<close> is the boolean \<^verbatim>\<open>true\<close>, and then \<^verbatim>\<open>typingAt\<close> is the clock; for a falsy
  \<open>v\<close> (false, absent, null, 0, the empty string) \<^verbatim>\<open>typingAt\<close> is null; and for every
  \<open>v\<close> other than \<^verbatim>\<open>true\<close> the typing verdict that the caller's partner reads next is
  false.
\<close>

theorem typing_flag_stored:
  assumes "findById (users st) me = Some u"
  shows "let st' = snd (auth_typing st me v now) in
           fst (auth_typing st me v now) = OkTrue
         \<and> (\<exists>u'. findById (users st') me = Some u'
                \<and> isTyping u' = (v = JBool True)
                \<and> (v = JBool True \<longrightarrow> typingAt u' = Some now)
                \<and> (\<not> truthy v \<longrightarrow> typingAt u' = None))
         \<and> (\<forall>c now1 now2. partner_of st' c = Some me \<and> v \<noteq> JBool True \<longrightarrow>
                (\<exists>on la. auth_partner_status st' c now1 now2 = (PartnerStatus on la False, st')))"
proof -
  define f where "f = (\<lambda>u::user. u\<lparr>isTyping := (v = JBool True),
                    typingAt := (if truthy v then Some now else None)\<rparr>)"
  define st' where "st' = snd (auth_typing st me v now)"
  have uf: "\<And>u. uid (f u) = uid u" by (simp add: f_def)
  have users': "users st' = findByIdAndUpdate (users st) me f"
    by (simp add: st'_def auth_typing_def f_def)
  have me: "uid u = me" using assms by (rule findById_uid)
  have fu: "findById (users st') me = Some (f u)"
    by (simp add: users' findById_update [OF uf] assms me)
  have 1: "fst (auth_typing st me v now) = OkTrue"
    by (simp add: auth_typing_def)
  have 2: "\<exists>u'. findById (users st') me = Some u'
                \<and> isTyping u' = (v = JBool True)
                \<and> (v = JBool True \<longrightarrow> typingAt u' = Some now)
                \<and> (\<not> truthy v \<longrightarrow> typingAt u' = None)"
    using fu by (simp add: f_def)
  have 3: "\<exists>on la. auth_partner_status st' c now1 now2 = (PartnerStatus on la False, st')"
    if "partner_of st' c = Some me" "v \<noteq> JBool True" for c now1 now2
  proof -
    have "\<not> isTyping (f u)" using that(2) by (simp add: f_def)
    then show ?thesis
      using that(1) fu by (auto simp: partner_of_def auth_partner_status_def Let_def split: option.splits)
  qed
  show ?thesis
    unfolding Let_def st'_def [symmetric] using 1 2 3 by blast
qed


lemma findById_in_set: "findById db i = Some u \<Longrightarrow> u \<in> set db"
  by (induction db) (auto simp: findById_def split: if_splits)

lemma findOne_inviteCode_in_set: "findOne_inviteCode db c = Some u \<Longrightarrow> u \<in> set db"
  by (induction db) (auto simp: findOne_inviteCode_def split: if_splits)





lemma partner_of_users:
  "users st' = users st \<Longrightarrow> partner_of st' a = partner_of st a"
  by (simp add: partner_of_def)














lemma users_webrtc [simp]:
  "users (snd (webrtc_offer st me sdp now)) = users st"
  "users (snd (webrtc_answer st me sdp now)) = users st"
  "users (snd (webrtc_ice_candidate st me c now)) = users st"
  "users (snd (webrtc_poll st me)) = users st"
  "users (snd (webrtc_end st me now)) = users st"
  by (simp_all add: webrtc_offer_def webrtc_answer_def webrtc_ice_candidate_def
        webrtc_poll_def webrtc_end_def Let_def split: option.splits sval.splits)













theorem typing_flag_stored_witness:
  "findById (users sample_state) alice = Some (sample_user alice (Some bob))
   \<and> fst (auth_typing sample_state alice (JBool True) 5000) = OkTrue
   \<and> findById (users (snd (auth_typing sample_state alice (JBool True) 5000))) alice
       = Some ((sample_user alice (Some bob))\<lparr>isTyping := True, typingAt := Some 5000\<rparr>)
   \<and> findById (users (snd (auth_typing sample_state alice JUndefined 5000))) alice
       = Some ((sample_user alice (Some bob))\<lparr>isTyping := False, typingAt := None\<rparr>)"
proof -
  have a: "findById (users sample_state) alice = Some (sample_user alice (Some bob))"
    by (simp add: findById_def sample_state_def sample_user_def)
  have b: "findById (users (snd (auth_typing sample_state alice (JBool True) 5000))) alice
       = Some ((sample_user alice (Some bob))\<lparr>isTyping := True, typingAt := Some 5000\<rparr>)"
    by (simp add: auth_typing_def findById_def findByIdAndUpdate_def sample_state_def
          sample_user_def alice_def bob_def carol_def)
  have c: "findById (users (snd (auth_typing sample_state alice JUndefined 5000))) alice
       = Some ((sample_user alice (Some bob))\<lparr>isTyping := False, typingAt := None\<rparr>)"
    by (simp add: auth_typing_def findById_def findByIdAndUpdate_def sample_state_def
          sample_user_def alice_def bob_def carol_def)
  show ?thesis
    using a b c typing_flag_stored [OF a, of "JBool True" 5000, unfolded Let_def, THEN conjunct1]
    by simp
qed

text \<open>
  Claim C10 as it is written fails: the number 1 is not the boolean \<^verbatim>\<open>true\<close>, the flag
  stored is false, and \<^verbatim>\<open>typingAt\<close> is set to the clock, not cleared.
\<close>

theorem typing_truthy_counterexample:
  "JNum 1 \<noteq> JBool True
   \<and> findById (users (snd (auth_typing sample_state alice (JNum 1) 5000))) alice
       = Some ((sample_user alice (Some bob))\<lparr>isTyping := False, typingAt := Some 5000\<rparr>)
   \<and> typingAt ((sample_user alice (Some bob))\<lparr>isTyping := False, typingAt := Some 5000\<rparr>)
       \<noteq> None"
  by (simp add: auth_typing_def findById_def findByIdAndUpdate_def sample_state_def
        sample_user_def alice_def bob_def carol_def)

section \<open>Serving a request in one go is one of the interleavings\<close>

lemma resume_at_0_Cons:
  "resume_at 0 (st, t # ts) = (fst (resume st t), snd (resume st t) @ ts)"
  by (simp add: resume_at_def split: prod.splits)

lemma resume_at_0_Nil [simp]: "resume_at 0 (st, []) = (st, [])"
  by (simp add: resume_at_def)

lemma settle_Nil [simp]: "settle (st, []) = (st, [])"
  by (simp add: settle_def)

lemma settle_one:
  "snd (resume st t) = [] \<Longrightarrow> settle (st, [t]) = (fst (resume st t), [])"
  by (simp add: settle_def resume_at_0_Cons)

lemma arrive_Nil: "arrive up rq (st, []) = start up st rq"
  by (simp add: arrive_def split: prod.splits)

lemma settle_push:
  "settle (st\<lparr>users := db\<rparr>, [PushFindById i outcome])
     = (st\<lparr>users := snd (sendToUser db i outcome)\<rparr>, [])"
  by (simp add: settle_def resume_at_0_Cons sendToUser_def
           split: option.splits push_outcome.splits)

lemma settle_link:
  assumes "findById (users st) me = Some user" and "partnerId user = None"
  shows "settle (st, [LinkFindById me partner imp])
           = (st\<lparr>users :=
                   (case imp of
                      ImportThrows \<Rightarrow>
                        findByIdAndUpdate
                          (findByIdAndUpdate (users st) (uid user)
                             (\<lambda>u. u\<lparr>partnerId := Some (uid partner)\<rparr>))
                          (uid partner) (\<lambda>u. u\<lparr>partnerId := Some (uid user)\<rparr>)
                    | Imported outcome \<Rightarrow>
                        snd (sendToUser
                          (findByIdAndUpdate
                            (findByIdAndUpdate (users st) (uid user)
                               (\<lambda>u. u\<lparr>partnerId := Some (uid partner)\<rparr>))
                            (uid partner) (\<lambda>u. u\<lparr>partnerId := Some (uid user)\<rparr>))
                          (uid partner) outcome))\<rparr>, [])"
  using assms
  by (cases imp)
     (simp_all add: settle_def resume_at_0_Cons sendToUser_def
        split: option.splits push_outcome.splits)

lemma settle_arrive:
  "settle (arrive up rq (st, [])) = (snd (handle up st rq), [])"
proof (cases rq)
  case (Register i p draws profile now)
  then show ?thesis
    by (simp add: arrive_Nil auth_register_def Let_def settle_def resume_at_0_Cons)
next
  case (Login p now)
  then show ?thesis
    by (simp add: arrive_Nil auth_login_def settle_def resume_at_0_Cons split: option.splits)
next
  case (Me me now)
  then show ?thesis
    by (simp add: arrive_Nil auth_me_def settle_def resume_at_0_Cons split: option.splits)
next
  case (LinkPartner me code imp)
  show ?thesis
  proof (cases "\<exists>s partner user. code = JStr s \<and> s \<noteq> []
                  \<and> findOne_inviteCode (users st) (up s) = Some partner
                  \<and> uid partner \<noteq> me \<and> partnerId partner = None
                  \<and> findById (users st) me = Some user \<and> partnerId user = None")
    case True
    then obtain s partner user where c: "code = JStr s" "s \<noteq> []"
        "findOne_inviteCode (users st) (up s) = Some partner"
        "uid partner \<noteq> me" "partnerId partner = None"
        "findById (users st) me = Some user" "partnerId user = None"
      by blast
    have "arrive up rq (st, []) = (st, [LinkFindById me partner imp])"
      using c by (simp add: LinkPartner arrive_Nil)
    moreover have "snd (handle up st rq)
           = st\<lparr>users :=
                   (case imp of
                      ImportThrows \<Rightarrow>
                        findByIdAndUpdate
                          (findByIdAndUpdate (users st) (uid user)
                             (\<lambda>u. u\<lparr>partnerId := Some (uid partner)\<rparr>))
                          (uid partner) (\<lambda>u. u\<lparr>partnerId := Some (uid user)\<rparr>)
                    | Imported outcome \<Rightarrow>
                        snd (sendToUser
                          (findByIdAndUpdate
                            (findByIdAndUpdate (users st) (uid user)
                               (\<lambda>u. u\<lparr>partnerId := Some (uid partner)\<rparr>))
                            (uid partner) (\<lambda>u. u\<lparr>partnerId := Some (uid user)\<rparr>))
                          (uid partner) outcome))\<rparr>"
      using c by (cases imp) (simp_all add: LinkPartner auth_link_partner_def Let_def)
    ultimately show ?thesis
      using settle_link [OF c(6,7), of partner imp] by (simp only:)
  next
    case False
    have h: "snd (handle up st rq) = st"
      using False
      by (cases code)
         (auto simp: LinkPartner auth_link_partner_def split: option.splits)
    have "arrive up rq (st, []) = (st, [])
          \<or> (\<exists>partner. arrive up rq (st, []) = (st, [LinkFindById me partner imp])
                \<and> (findById (users st) me = None
                    \<or> (\<exists>user. findById (users st) me = Some user \<and> partnerId user \<noteq> None)))"
      using False
      by (cases code)
         (auto simp: LinkPartner arrive_Nil split: option.splits)
    then show ?thesis
    proof (elim disjE exE conjE)
      assume "arrive up rq (st, []) = (st, [])"
      then show ?thesis using h by simp
    next
      fix partner
      assume a: "arrive up rq (st, []) = (st, [LinkFindById me partner imp])"
         and "findById (users st) me = None"
      then show ?thesis using h by (simp add: settle_one)
    next
      fix partner user
      assume a: "arrive up rq (st, []) = (st, [LinkFindById me partner imp])"
         and "findById (users st) me = Some user" "partnerId user \<noteq> None"
      then show ?thesis using h by (simp add: settle_one)
    qed
  qed
next
  case (GetPartnerStatus me now1 now2)
  then show ?thesis
    by (simp add: arrive_Nil auth_partner_status_def Let_def split: option.splits)
next
  case (Logout me)
  then show ?thesis by (simp add: arrive_Nil)
next
  case (Heartbeat me now)
  then show ?thesis by (simp add: arrive_Nil)
next
  case (Typing me v now)
  then show ?thesis by (simp add: arrive_Nil)
next
  case (Subscribe me sub)
  then show ?thesis by (simp add: arrive_Nil)
next
  case (TestPush me)
  then show ?thesis by (simp add: arrive_Nil notifications_test_def)
next
  case (SendSignal me imp)
  have "st\<lparr>users := users st\<rparr> = st" by simp
  then have "settle (st, [PushFindById i outcome])
               = (st\<lparr>users := snd (sendToUser (users st) i outcome)\<rparr>, [])" for i outcome
    using settle_push [where st = st and db = "users st" and i = i and outcome = outcome] by simp
  then show ?thesis
    by (simp add: SendSignal arrive_Nil notifications_send_signal_def
          split: option.splits import_result.splits)
next
  case (PostOffer me sdp now)
  then show ?thesis
    by (simp add: arrive_Nil webrtc_offer_def settle_def resume_at_0_Cons setEntry_def
          split: option.splits)
next
  case (PostAnswer me sdp now)
  then show ?thesis
    by (simp add: arrive_Nil webrtc_answer_def settle_def resume_at_0_Cons setEntry_def
          split: option.splits)
next
  case (PostIceCandidate me c now)
  then show ?thesis
    by (simp add: arrive_Nil webrtc_ice_candidate_def settle_def resume_at_0_Cons
          appendCandidate_def Let_def split: option.splits sval.splits)
next
  case (GetPoll me)
  then show ?thesis by (simp add: arrive_Nil)
next
  case (PostEnd me now)
  then show ?thesis
    by (simp add: arrive_Nil webrtc_end_def settle_def resume_at_0_Cons setEntry_def
          split: option.splits)
qed

lemma reachable_config_settle:
  "reachable_config up c \<Longrightarrow> reachable_config up (settle c)"
  unfolding settle_def by (intro reachable_config.resumption)

lemma serially_reachable_config:
  "serially_reachable up st \<Longrightarrow> reachable_config up (st, [])"
proof (induction rule: serially_reachable.induct)
  case boot
  show ?case by (rule reachable_config.boot)
next
  case (served st rq)
  have "reachable_config up (settle (arrive up rq (st, [])))"
    using served.IH served.hyps(2)
    by (intro reachable_config_settle reachable_config.arrival)
  then show ?case by (simp only: settle_arrive)
qed

lemma serially_reachable_reachable: "serially_reachable up st \<Longrightarrow> reachable up st"
  unfolding reachable_def by (blast dest: serially_reachable_config)

section \<open>The store of a reachable state is well typed\<close>

lemma oid_users_update:
  assumes "\<And>u. uid (f u) = uid u" and "oid_users db"
  shows "oid_users (findByIdAndUpdate db i f)"
  using assms by (auto simp: oid_users_def findByIdAndUpdate_def)

lemma oid_partners_update:
  assumes "\<And>u b. partnerId (f u) = Some b \<Longrightarrow> partnerId u = Some b \<or> is_oid b"
      and "oid_partners db"
  shows "oid_partners (findByIdAndUpdate db i f)"
  unfolding oid_partners_def findByIdAndUpdate_def
proof (intro ballI allI impI)
  fix v b
  assume v: "v \<in> set (map (\<lambda>u. if uid u = i then f u else u) db)" and b: "partnerId v = Some b"
  from v obtain u where u: "u \<in> set db" and vu: "v = (if uid u = i then f u else u)"
    by auto
  show "is_oid b"
  proof (cases "uid u = i")
    case True
    then have "partnerId (f u) = Some b" using vu b by simp
    then have "partnerId u = Some b \<or> is_oid b" by (rule assms(1))
    then show ?thesis using assms(2) u by (auto simp: oid_partners_def)
  next
    case False
    then show ?thesis using vu b assms(2) u by (auto simp: oid_partners_def)
  qed
qed

lemma typed_store_signal:
  "typed_store m \<Longrightarrow> is_oid k \<Longrightarrow> typed_store (m(k \<mapsto> Signal e))"
  by (simp add: typed_store_def)

lemma typed_store_candidates:
  "typed_store m \<Longrightarrow> is_oid r \<Longrightarrow> typed_store (m(ice_key r \<mapsto> Candidates q))"
  by (auto simp: typed_store_def)

lemma typed_store_delete: "typed_store m \<Longrightarrow> typed_store (m(k := None))"
  by (simp add: typed_store_def)

lemma state_ok_users:
  assumes "state_ok st" and "oid_users db" and "oid_partners db"
  shows "state_ok (st\<lparr>users := db\<rparr>)"
  using assms by (simp add: state_ok_def)

lemma state_ok_update:
  assumes "state_ok st" and "\<And>u. uid (f u) = uid u"
      and "\<And>u b. partnerId (f u) = Some b \<Longrightarrow> partnerId u = Some b \<or> is_oid b"
  shows "state_ok (st\<lparr>users := findByIdAndUpdate (users st) i f\<rparr>)"
proof (rule state_ok_users [OF assms(1)])
  have ou: "oid_users (users st)" and op: "oid_partners (users st)"
    using assms(1) by (simp_all add: state_ok_def)
  show "oid_users (findByIdAndUpdate (users st) i f)"
    using assms(2) ou by (rule oid_users_update)
  show "oid_partners (findByIdAndUpdate (users st) i f)"
    using assms(3) op by (rule oid_partners_update)
qed

lemma state_ok_store:
  assumes "state_ok st" and "typed_store m"
  shows "state_ok (st\<lparr>signalingStore := m\<rparr>)"
  using assms by (simp add: state_ok_def)

lemma state_ok_poll: "state_ok st \<Longrightarrow> state_ok (snd (webrtc_poll st me))"
  by (simp add: webrtc_poll_def Let_def state_ok_def typed_store_delete)

lemma doc_is_oid:
  "state_ok st \<Longrightarrow> findById (users st) i = Some u \<Longrightarrow> is_oid (uid u)"
  by (auto simp: state_ok_def oid_users_def dest: findById_in_set)

lemma partner_field_is_oid:
  "state_ok st \<Longrightarrow> findById (users st) i = Some u \<Longrightarrow> partnerId u = Some p \<Longrightarrow> is_oid p"
  by (auto simp: state_ok_def oid_partners_def dest: findById_in_set)

lemma start_state_ok:
  assumes ok: "state_ok st" and adm: "admissible rq"
  shows "state_ok (fst (start up st rq))"
proof (cases rq)
  case (Register i p draws profile now)
  have "state_ok (st\<lparr>users := users st
                   @ [new_user i p (if truthy profile then profile else JNull) now]\<rparr>)"
    using ok adm
    by (simp add: Register state_ok_def oid_users_def oid_partners_def new_user_def)
  then show ?thesis using ok by (simp add: Register)
next
  case (Logout me)
  then show ?thesis
    using state_ok_update [OF ok, of "\<lambda>u. u\<lparr>isOnline := False\<rparr>" me]
    by (simp add: auth_logout_def)
next
  case (Heartbeat me now)
  then show ?thesis
    using state_ok_update [OF ok, of "\<lambda>u. u\<lparr>lastActiveAt := now, isOnline := True\<rparr>" me]
    by (simp add: auth_heartbeat_def)
next
  case (Typing me v now)
  then show ?thesis
    using state_ok_update [OF ok,
            of "\<lambda>u. u\<lparr>isTyping := (v = JBool True),
                      typingAt := (if truthy v then Some now else None)\<rparr>" me]
    by (simp add: auth_typing_def)
next
  case (Subscribe me sub)
  have "state_ok (st\<lparr>users := findByIdAndUpdate (users st) me
                                (\<lambda>u. u\<lparr>pushSubscription := Some s\<rparr>)\<rparr>)" for s
    using ok by (rule state_ok_update) simp_all
  then show ?thesis
    using ok by (simp add: Subscribe notifications_subscribe_def split: option.splits)
next
  case (GetPoll me)
  then show ?thesis using ok by (simp add: state_ok_poll)
qed (use ok in \<open>simp_all split: option.splits jsval.splits import_result.splits\<close>)

lemma start_continuations_ok:
  assumes ok: "state_ok st"
  shows "list_all continuation_ok (snd (start up st rq))"
proof (cases rq)
  case (LinkPartner me code imp)
  have "is_oid (uid partner)" if "findOne_inviteCode (users st) c = Some partner" for c partner
    using ok that by (auto simp: state_ok_def oid_users_def dest: findOne_inviteCode_in_set)
  then show ?thesis
    by (simp add: LinkPartner split: option.splits jsval.splits)
next
  case (PostOffer me sdp now)
  then show ?thesis
    using partner_field_is_oid [OF ok] by (auto split: option.splits)
next
  case (PostAnswer me sdp now)
  then show ?thesis
    using partner_field_is_oid [OF ok] by (auto split: option.splits)
next
  case (PostIceCandidate me c now)
  then show ?thesis
    using partner_field_is_oid [OF ok] by (auto split: option.splits)
next
  case (PostEnd me now)
  then show ?thesis
    using partner_field_is_oid [OF ok] by (auto split: option.splits)
qed (simp_all split: option.splits import_result.splits)

lemma resume_state_ok:
  assumes ok: "state_ok st" and t: "continuation_ok t"
  shows "state_ok (fst (resume st t))"
proof (cases t)
  case (RegisterInviteCode i code)
  have "state_ok (st\<lparr>users := findByIdAndUpdate (users st) i
                                (\<lambda>u. u\<lparr>inviteCode := Some code\<rparr>)\<rparr>)"
    using ok by (rule state_ok_update) simp_all
  then show ?thesis using ok by (simp add: RegisterInviteCode)
next
  case (UserSave i now)
  have "state_ok (st\<lparr>users := findByIdAndUpdate (users st) i
                                (\<lambda>u. u\<lparr>lastActiveAt := now, isOnline := True\<rparr>)\<rparr>)"
    using ok by (rule state_ok_update) simp_all
  then show ?thesis by (simp add: UserSave)
next
  case (LinkFindById me partner imp)
  then show ?thesis using ok by (simp split: option.splits)
next
  case (LinkSaveUser user partner imp)
  have "state_ok (st\<lparr>users := findByIdAndUpdate (users st) (uid user)
                                (\<lambda>u. u\<lparr>partnerId := Some (uid partner)\<rparr>)\<rparr>)"
    using ok by (rule state_ok_update) (use t LinkSaveUser in simp_all)
  then show ?thesis by (simp add: LinkSaveUser)
next
  case (LinkSavePartner user partner imp)
  have "state_ok (st\<lparr>users := findByIdAndUpdate (users st) (uid partner)
                                (\<lambda>u. u\<lparr>partnerId := Some (uid user)\<rparr>)\<rparr>)"
    using ok by (rule state_ok_update) (use t LinkSavePartner in simp_all)
  then show ?thesis by (simp add: LinkSavePartner)
next
  case (PushFindById i outcome)
  then show ?thesis using ok by (simp split: option.splits push_outcome.splits)
next
  case (PushUnset i)
  have "state_ok (st\<lparr>users := findByIdAndUpdate (users st) i
                                (\<lambda>u. u\<lparr>pushSubscription := None\<rparr>)\<rparr>)"
    using ok by (rule state_ok_update) simp_all
  then show ?thesis by (simp add: PushUnset)
next
  case (StoreSet k e)
  then show ?thesis
    using ok t by (simp add: setEntry_def state_ok_def typed_store_signal)
next
  case (StorePush p f)
  then show ?thesis
    using ok t
    by (auto simp: appendCandidate_def state_ok_def typed_store_candidates
             split: option.splits sval.splits)
qed

lemma resume_continuations_ok:
  assumes ok: "state_ok st" and t: "continuation_ok t"
  shows "list_all continuation_ok (snd (resume st t))"
proof (cases t)
  case (LinkFindById me partner imp)
  then show ?thesis
    using t doc_is_oid [OF ok, of me] by (auto split: option.splits)
next
  case (LinkSaveUser user partner imp)
  then show ?thesis using t by simp
next
  case (LinkSavePartner user partner imp)
  then show ?thesis using t by (simp split: import_result.splits)
qed (simp_all split: option.splits push_outcome.splits)

lemma config_ok_arrive:
  assumes "config_ok c" and "admissible rq"
  shows "config_ok (arrive up rq c)"
proof -
  have ok: "state_ok (fst c)" and ts: "list_all continuation_ok (snd c)"
    using assms(1) by (simp_all add: config_ok_def)
  have "arrive up rq c = (fst (start up (fst c) rq), snd c @ snd (start up (fst c) rq))"
    by (simp add: arrive_def split: prod.splits)
  then show ?thesis
    using start_state_ok [OF ok assms(2), of up] start_continuations_ok [OF ok, of up rq] ts
    by (simp add: config_ok_def)
qed

lemma config_ok_resume_at:
  assumes "config_ok c"
  shows "config_ok (resume_at i c)"
proof (cases "i < length (snd c)")
  case False
  then show ?thesis using assms by (simp add: resume_at_def)
next
  case True
  have ok: "state_ok (fst c)" and ts: "list_all continuation_ok (snd c)"
    using assms by (simp_all add: config_ok_def)
  have t: "continuation_ok (snd c ! i)"
    using ts True by (simp add: list_all_length)
  have rest: "list_all continuation_ok (take i (snd c))" "list_all continuation_ok (drop (Suc i) (snd c))"
    using ts by (auto simp: list_all_iff dest: in_set_takeD in_set_dropD)
  have "resume_at i c = (fst (resume (fst c) (snd c ! i)),
                         take i (snd c) @ snd (resume (fst c) (snd c ! i)) @ drop (Suc i) (snd c))"
    using True by (simp add: resume_at_def split: prod.splits)
  then show ?thesis
    using resume_state_ok [OF ok t] resume_continuations_ok [OF ok t] rest
    by (simp add: config_ok_def)
qed

lemma reachable_config_ok: "reachable_config up c \<Longrightarrow> config_ok c"
proof (induction rule: reachable_config.induct)
  case boot
  show ?case
    by (simp add: config_ok_def state_ok_def initial_state_def oid_users_def oid_partners_def)
next
  case (arrival c rq)
  then show ?case by (intro config_ok_arrive)
next
  case (resumption c i)
  then show ?case by (intro config_ok_resume_at)
qed

text \<open>
  In every state the server can be in, whatever the order in which the handlers took
  their turns, the store is well typed.
\<close>

lemma reachable_typed_store: "reachable up st \<Longrightarrow> typed_store (signalingStore st)"
  unfolding reachable_def
  by (auto dest!: reachable_config_ok simp: config_ok_def state_ok_def)

section \<open>Two link requests that take turns\<close>




section \<open>The poll against the writes of the store\<close>

lemma drained_queue: "drained st r \<Longrightarrow> queue_of st r = [] \<and> signalingStore st r = None"
  by (auto simp: drained_def queue_of_def)

lemma poll_no_message_at:
  assumes "no_message_at st (ice_key r)"
  shows "fst (webrtc_poll st r) = PollResult (signalingStore st r) (Candidates (queue_of st r))
       \<and> drained (snd (webrtc_poll st r)) r"
  using assms poll_candidates [OF assms] poll_leaves_drained [of st r]
  by (simp add: no_message_at_def)

lemma no_message_at_setEntry:
  "no_message_at st (ice_key r) \<Longrightarrow> no_message_at (setEntry st r e) (ice_key r)"
  by (simp add: no_message_at_def setEntry_def)

lemma no_message_at_appendCandidate:
  "no_message_at st (ice_key r) \<Longrightarrow> no_message_at (appendCandidate st r f) (ice_key r)"
  by (auto simp: no_message_at_def appendCandidate_def split: option.splits sval.splits)

lemma no_message_at_drained: "drained st r \<Longrightarrow> no_message_at st (ice_key r)"
  by (auto simp: no_message_at_def drained_def)

text \<open>
  Claim C9. \<^verbatim>\<open>GET /poll\<close> has no await, so it is one operation of the interleaved
  server: it leaves no continuation suspended, it returns the slot and the whole queue of the
  recipient as they are at that moment, and after it both are empty. The writes of the
  store (what a send handler does once its \<^verbatim>\<open>findById\<close> is back) are single operations
  too, so each one lands before the poll or after it. A
  message or a candidate written before the poll is in the poll's response (and gone
  after it); one written after the poll is in the response of the next poll.
\<close>

theorem poll_is_one_operation:
  assumes "typed_store (signalingStore st)"
  shows "start up st (GetPoll r) = (snd (webrtc_poll st r), [])
       \<and> resume st (StoreSet r e) = (setEntry st r e, [])
       \<and> resume st (StorePush r f) = (appendCandidate st r f, [])
       \<and> fst (webrtc_poll st r) = PollResult (signalingStore st r) (Candidates (queue_of st r))
       \<and> drained (snd (webrtc_poll st r)) r
       \<and> fst (webrtc_poll (setEntry st r e) r)
           = PollResult (Some (Signal e)) (Candidates (queue_of st r))
       \<and> drained (snd (webrtc_poll (setEntry st r e) r)) r
       \<and> fst (webrtc_poll (appendCandidate st r f) r)
           = PollResult (signalingStore st r) (Candidates (queue_of st r @ [f]))
       \<and> drained (snd (webrtc_poll (appendCandidate st r f) r)) r
       \<and> fst (webrtc_poll (setEntry (snd (webrtc_poll st r)) r e) r)
           = PollResult (Some (Signal e)) (Candidates [])
       \<and> fst (webrtc_poll (appendCandidate (snd (webrtc_poll st r)) r f) r)
           = PollResult None (Candidates [f])"
proof -
  let ?st0 = "snd (webrtc_poll st r)"
  have n: "no_message_at st (ice_key r)"
    using typed_store_no_signal [OF assms, of r] by (simp add: no_message_at_def)
  have 1: "start up st (GetPoll r) = (snd (webrtc_poll st r), [])"
          "resume st (StoreSet r e) = (setEntry st r e, [])"
          "resume st (StorePush r f) = (appendCandidate st r f, [])"
    by simp_all
  note 2 = poll_no_message_at [OF n]
  have d: "drained ?st0 r" using 2 by simp
  note n0 = no_message_at_drained [OF d]
  have se: "signalingStore (setEntry s r e) r = Some (Signal e)"
           "queue_of (setEntry s r e) r = queue_of s r" for s
    by (simp_all add: setEntry_def queue_of_def)
  have ap: "signalingStore (appendCandidate s r f) r = signalingStore s r" for s
    by (auto simp: appendCandidate_def split: option.splits sval.splits)
  have aq: "queue_of (appendCandidate s r f) r = queue_of s r @ [f]"
    if "no_message_at s (ice_key r)" for s
    using that
    by (auto simp: appendCandidate_def queue_of_def no_message_at_def
             split: option.splits sval.splits)
  note 3 = poll_no_message_at [OF no_message_at_setEntry [OF n, of e]]
  note 4 = poll_no_message_at [OF no_message_at_appendCandidate [OF n, of f]]
  note 5 = poll_no_message_at [OF no_message_at_setEntry [OF n0, of e]]
  note 6 = poll_no_message_at [OF no_message_at_appendCandidate [OF n0, of f]]
  show ?thesis
    using 1 2 3 4 5 6 drained_queue [OF d]
    by (simp add: se ap aq [OF n] aq [OF n0])
qed

theorem poll_is_one_operation_witness:
  "typed_store (signalingStore sample_state)
   \<and> fst (webrtc_poll (setEntry sample_state bob (Offer (JStr ''v=0'') alice 7)) bob)
       = PollResult (Some (Signal (Offer (JStr ''v=0'') alice 7))) (Candidates [])
   \<and> fst (webrtc_poll (appendCandidate sample_state bob (Fragment (JStr ''c1'') alice 8)) bob)
       = PollResult None (Candidates [Fragment (JStr ''c1'') alice 8])
   \<and> fst (webrtc_poll
            (appendCandidate (snd (webrtc_poll sample_state bob)) bob
               (Fragment (JStr ''c1'') alice 8)) bob)
       = PollResult None (Candidates [Fragment (JStr ''c1'') alice 8])
   \<and> fst (webrtc_poll
            (setEntry (snd (webrtc_poll sample_state bob)) bob (End alice 9)) bob)
       = PollResult (Some (Signal (End alice 9))) (Candidates [])"
proof -
  have t: "typed_store (signalingStore sample_state)"
    by (simp add: sample_state_def)
  have q: "queue_of sample_state bob = []" "signalingStore sample_state bob = None"
    by (simp_all add: queue_of_def sample_state_def)
  note T = poll_is_one_operation [OF t, of ascii_upper bob]
  show ?thesis
    using t T [of "Offer (JStr ''v=0'') alice 7" "Fragment (JStr ''c1'') alice 8"]
          T [of "End alice 9" "Fragment (JStr ''c1'') alice 8"]
    by (simp add: q)
qed

end
